theory Spec2Isabelle
  imports Main "HOL-Library.Sublist" "HOL-Library.Word"
begin

section \<open>Strings and the built-in operations the parser uses\<close>

text \<open>
  A Python \<open>str\<close> is a sequence of code points. It is modelled as a \<open>string\<close>
  whose characters stand for the code points 0 to 255; the text the parser reads
  (markdown tables produced by the model) and every literal of the source lie in
  this range. The operations that do not look at the characters themselves
  (\<open>split\<close>, \<open>strip\<close> over a set, \<open>startswith\<close>, \<open>in\<close>, \<open>join\<close>) are
  defined for lists over any alphabet, so that they also serve for strings of
  arbitrary code points further down.
\<close>

datatype py_error = IndexError | KeyError

text \<open>\<open>xs[i]\<close> for a non-negative index: out of range raises \<open>IndexError\<close>.\<close>

definition getitem :: "'a list \<Rightarrow> nat \<Rightarrow> py_error + 'a" where
  "getitem xs i = (if i < length xs then Inr (xs ! i) else Inl IndexError)"

text \<open>Sequencing of computations that may raise: the first error escapes.\<close>

definition bind_err :: "'e + 'a \<Rightarrow> ('a \<Rightarrow> 'e + 'b) \<Rightarrow> 'e + 'b" where
  "bind_err m f = (case m of Inl e \<Rightarrow> Inl e | Inr x \<Rightarrow> f x)"

text \<open>
  \<open>str.isspace\<close> on one character, for the code points below 256: the
  characters \<open>str.strip()\<close> removes.
\<close>

definition isspace :: "char \<Rightarrow> bool" where
  "isspace c =
     (let n = (of_char c :: nat)
      in (9 \<le> n \<and> n \<le> 13) \<or> (28 \<le> n \<and> n \<le> 32) \<or> n = 133 \<or> n = 160)"

text \<open>\<open>s.strip()\<close> and \<open>s.strip(chars)\<close>: both ends, every character of the set.\<close>

definition strip_where :: "('a \<Rightarrow> bool) \<Rightarrow> 'a list \<Rightarrow> 'a list" where
  "strip_where P s = rev (dropWhile P (rev (dropWhile P s)))"

definition py_strip :: "string \<Rightarrow> string" where
  "py_strip s = strip_where isspace s"

definition strip_chars :: "'a list \<Rightarrow> 'a list \<Rightarrow> 'a list" where
  "strip_chars chars s = strip_where (\<lambda>c. c \<in> set chars) s"

text \<open>\<open>s.startswith(p)\<close> and \<open>sub in s\<close>.\<close>

definition startswith :: "'a list \<Rightarrow> 'a list \<Rightarrow> bool" where
  "startswith s p = prefix p s"

definition py_in :: "'a list \<Rightarrow> 'a list \<Rightarrow> bool" where
  "py_in sub s = sublist sub s"

text \<open>
  \<open>s.split(sep)\<close> for a non-empty separator: a scan from the left, cutting at
  every occurrence that does not overlap the previous one; the result always has
  at least one element. (Python raises \<open>ValueError\<close> on an empty separator; the
  source only splits on the literals \<open>'\n'\<close>, \<open>'|'\<close> and \<open>'<br>'\<close>.)
\<close>

function py_split_acc :: "'a list \<Rightarrow> 'a list \<Rightarrow> 'a list \<Rightarrow> 'a list list" where
  "py_split_acc sep acc [] = [rev acc]"
| "py_split_acc sep acc (c # cs) =
     (if sep \<noteq> [] \<and> prefix sep (c # cs)
      then rev acc # py_split_acc sep [] (drop (length sep) (c # cs))
      else py_split_acc sep (c # acc) cs)"
  by pat_completeness auto
termination
  by (relation "measure (\<lambda>(sep, acc, s). length s)") auto

definition py_split :: "'a list \<Rightarrow> 'a list \<Rightarrow> 'a list list" where
  "py_split sep s = py_split_acc sep [] s"

text \<open>\<open>sep.join(xs)\<close>, with which the report puts the items of a field together again.\<close>

fun py_join :: "'a list \<Rightarrow> 'a list list \<Rightarrow> 'a list" where
  "py_join sep [] = []"
| "py_join sep [x] = x"
| "py_join sep (x # y # zs) = x @ sep @ py_join sep (y # zs)"

text \<open>
  \<open>s.upper()\<close>, as the list of code points of the result: for the code points
  below 256 the lower-case letters map to their capitals, \<open>U+00DF\<close> to \<open>SS\<close>,
  \<open>U+00B5\<close> to \<open>U+039C\<close> and \<open>U+00FF\<close> to \<open>U+0178\<close>; every other
  character is unchanged.
\<close>

definition upper_char :: "char \<Rightarrow> nat list" where
  "upper_char c =
     (let n = (of_char c :: nat)
      in if 97 \<le> n \<and> n \<le> 122 then [n - 32]
         else if n = 181 then [924]
         else if n = 223 then [83, 83]
         else if 224 \<le> n \<and> n \<le> 254 \<and> n \<noteq> 247 then [n - 32]
         else if n = 255 then [376]
         else [n])"

definition upper :: "string \<Rightarrow> nat list" where
  "upper s = concat (map upper_char s)"

definition code_points :: "string \<Rightarrow> nat list" where
  "code_points s = map of_char s"

section \<open>The analysis results\<close>

text \<open>
  The value of each pillar in \<open>results\<close> is a dictionary with the four fixed
  keys \<open>strengths\<close>, \<open>risks\<close>, \<open>risk_level\<close> and \<open>recommendations\<close>.
  \<open>results\<close> itself is a dictionary in insertion order: an association list.
\<close>

record pillar_data =
  strengths :: "string list"
  risks :: "string list"
  risk_level :: string
  recommendations :: "string list"

type_synonym results = "(string \<times> pillar_data) list"

definition empty_pillar :: pillar_data where
  "empty_pillar = \<lparr>strengths = [], risks = [], risk_level = [], recommendations = []\<rparr>"

definition initial_results :: results where
  "initial_results =
     [(''Operational Excellence'', empty_pillar),
      (''Security'', empty_pillar),
      (''Reliability'', empty_pillar),
      (''Performance Efficiency'', empty_pillar),
      (''Cost Optimization'', empty_pillar),
      (''Sustainability'', empty_pillar)]"

definition keys :: "results \<Rightarrow> string list" where
  "keys rs = map fst rs"

text \<open>
  \<open>results[k][field] = v\<close>: looking \<open>k\<close> up raises \<open>KeyError\<close> when it is
  absent; otherwise the pillar's dictionary is updated in place.
\<close>

definition set_field :: "results \<Rightarrow> string \<Rightarrow> (pillar_data \<Rightarrow> pillar_data) \<Rightarrow> py_error + results" where
  "set_field rs k f =
     (if k \<in> set (keys rs)
      then Inr (map (\<lambda>(k', d). if k' = k then (k', f d) else (k', d)) rs)
      else Inl KeyError)"

section \<open>parse_analysis_results\<close>

text \<open>
  The body of \<open>for known_pillar in results.keys()\<close>, over the keys still to be
  visited: the first key contained in \<open>pillar_name\<close> receives the four fields
  of the row, and the loop breaks.
\<close>

fun match_pillar :: "results \<Rightarrow> string list \<Rightarrow> string \<Rightarrow> string list \<Rightarrow> py_error + results" where
  "match_pillar rs parts pillar_name [] = Inr rs"
| "match_pillar rs parts pillar_name (known_pillar # ks) =
     (if py_in known_pillar pillar_name then
        bind_err (getitem parts 1) (\<lambda>p1.
        bind_err (getitem parts 2) (\<lambda>p2.
        bind_err (getitem parts 3) (\<lambda>p3.
        bind_err (getitem parts 4) (\<lambda>p4.
          let strengths' = map (strip_chars ''- '') (py_split ''<br>'' p1);
              risks' = map (strip_chars ''- '') (py_split ''<br>'' p2);
              risk_level' = p3;
              recommendations' = map (strip_chars ''- '') (py_split ''<br>'' p4)
          in
        bind_err (set_field rs known_pillar (strengths_update (\<lambda>_. filter (\<lambda>s. s \<noteq> []) strengths'))) (\<lambda>rs1.
        bind_err (set_field rs1 known_pillar (risks_update (\<lambda>_. filter (\<lambda>r. r \<noteq> []) risks'))) (\<lambda>rs2.
        bind_err (set_field rs2 known_pillar (risk_level_update (\<lambda>_. risk_level'))) (\<lambda>rs3.
        set_field rs3 known_pillar
          (recommendations_update (\<lambda>_. filter (\<lambda>r. r \<noteq> []) recommendations')))))))))
      else match_pillar rs parts pillar_name ks)"

text \<open>The body of \<open>for line in lines\<close>.\<close>

definition process_line :: "results \<Rightarrow> string \<Rightarrow> py_error + results" where
  "process_line rs line0 =
     (let line = py_strip line0 in
      if line = [] \<or> startswith line ''| ---'' then Inr rs
      else if startswith line ''|'' then
        (let parts = map py_strip (py_split ''|'' line);
             parts = filter (\<lambda>p. p \<noteq> []) parts
         in if 5 \<le> length parts then
              bind_err (getitem parts 0) (\<lambda>pillar_name.
                match_pillar rs parts pillar_name (keys rs))
            else Inr rs)
      else Inr rs)"

fun process_lines :: "results \<Rightarrow> string list \<Rightarrow> py_error + results" where
  "process_lines rs [] = Inr rs"
| "process_lines rs (line # lines) =
     bind_err (process_line rs line) (\<lambda>rs'. process_lines rs' lines)"

text \<open>\<open>any(pillar_data.values())\<close>: some field is a non-empty list or string.\<close>

definition any_values :: "pillar_data \<Rightarrow> bool" where
  "any_values d =
     (strengths d \<noteq> [] \<or> risks d \<noteq> [] \<or> risk_level d \<noteq> [] \<or> recommendations d \<noteq> [])"

definition has_content :: "results \<Rightarrow> bool" where
  "has_content rs = list_ex (\<lambda>(k, d). any_values d) rs"

text \<open>
  The whole function, as far as its value goes. \<open>Inr None\<close> is the return
  value \<open>None\<close>, \<open>Inl e\<close> an exception of the function's own code. The calls
  that write to the page (\<open>st.error\<close>, \<open>st.write\<close>, \<open>st.code\<close>) do not
  touch \<open>results\<close>; they are left out here and are part of
  \<open>parse_analysis_results_st\<close> below, which also takes strings of any code
  points.
\<close>

definition parse_analysis_results :: "string \<Rightarrow> py_error + results option" where
  "parse_analysis_results analysis_text =
     (if analysis_text = [] then Inr None
      else
        bind_err (process_lines initial_results (py_split [CHR 0x0A] analysis_text)) (\<lambda>rs.
          if \<not> has_content rs then Inr None else Inr (Some rs)))"

section \<open>High-priority items\<close>

text \<open>
  The comprehension of \<open>display_results\<close> and, word for word, of
  \<open>create_download_link\<close>: one line \<open>pillar: rec\<close> for every recommendation
  of every pillar whose risk level upper-cases to \<open>HIGH\<close>.
\<close>

definition high_priority_items :: "results \<Rightarrow> string list" where
  "high_priority_items rs =
     concat (map (\<lambda>(pillar, details).
       concat (map (\<lambda>rec.
         if upper (risk_level details) = code_points ''HIGH''
         then [pillar @ '': '' @ rec] else [])
       (recommendations details))) rs)"

section \<open>Image size\<close>

type_synonym byte = "8 word"

definition MAX_SIZE :: nat where
  "MAX_SIZE = 5 * 1024 * 1024"

definition validate_image_size :: "byte list \<Rightarrow> bool" where
  "validate_image_size image_bytes = (length image_bytes \<le> MAX_SIZE)"

text \<open>
  The first step of \<open>main\<close> on an uploaded file: the bytes read from the
  upload are validated as they are; on failure \<open>main\<close> reports the error and
  returns, otherwise the same bytes go on to be displayed and analysed.
\<close>

datatype upload_step = Rejected string | Accepted "byte list"

definition main_size_check :: "byte list \<Rightarrow> upload_step" where
  "main_size_check image_bytes =
     (if \<not> validate_image_size image_bytes
      then Rejected ''Image size must be less than 5MB''
      else Accepted image_bytes)"

section \<open>Exceptions of the libraries\<close>

text \<open>
  An exception that escapes a function of the application is either raised by
  its own code (an index or a key) or by a call into a library (Streamlit,
  Pillow). What the libraries raise is theirs to decide: their calls are
  parameters that may return normally or raise.
\<close>

datatype 'x raised = Own py_error | Foreign 'x

definition own :: "py_error + 'a \<Rightarrow> 'x raised + 'a" where
  "own m = (case m of Inl e \<Rightarrow> Inl (Own e) | Inr v \<Rightarrow> Inr v)"

definition foreign :: "'x + 'a \<Rightarrow> 'x raised + 'a" where
  "foreign m = (case m of Inl e \<Rightarrow> Inl (Foreign e) | Inr v \<Rightarrow> Inr v)"

section \<open>parse_analysis_results on any string, with its page output\<close>

text \<open>
  The same function once more, now on strings of arbitrary code points and
  with the calls that write to the page (\<open>st.error\<close>, \<open>st.write\<close>,
  \<open>st.code\<close>) in their places. A string is the list of its code points;
  the literals of the source are given by \<open>code_points\<close>. \<open>isspace_u\<close> is
  \<open>str.isspace\<close> on one code point, over the whole of Unicode.
\<close>

type_synonym ustr = "nat list"

definition isspace_u :: "nat \<Rightarrow> bool" where
  "isspace_u n =
     ((9 \<le> n \<and> n \<le> 13) \<or> (28 \<le> n \<and> n \<le> 32) \<or> n = 133 \<or> n = 160 \<or> n = 5760
      \<or> (8192 \<le> n \<and> n \<le> 8202) \<or> n = 8232 \<or> n = 8233 \<or> n = 8239 \<or> n = 8287
      \<or> n = 12288)"

definition py_strip_u :: "ustr \<Rightarrow> ustr" where
  "py_strip_u s = strip_where isspace_u s"

record pillar_data_u =
  strengths_u :: "ustr list"
  risks_u :: "ustr list"
  risk_level_u :: ustr
  recommendations_u :: "ustr list"

type_synonym results_u = "(ustr \<times> pillar_data_u) list"

definition empty_pillar_u :: pillar_data_u where
  "empty_pillar_u = \<lparr>strengths_u = [], risks_u = [], risk_level_u = [], recommendations_u = []\<rparr>"

definition initial_results_u :: results_u where
  "initial_results_u =
     [(code_points ''Operational Excellence'', empty_pillar_u),
      (code_points ''Security'', empty_pillar_u),
      (code_points ''Reliability'', empty_pillar_u),
      (code_points ''Performance Efficiency'', empty_pillar_u),
      (code_points ''Cost Optimization'', empty_pillar_u),
      (code_points ''Sustainability'', empty_pillar_u)]"

definition keys_u :: "results_u \<Rightarrow> ustr list" where
  "keys_u rs = map fst rs"

definition set_field_u :: "results_u \<Rightarrow> ustr \<Rightarrow> (pillar_data_u \<Rightarrow> pillar_data_u) \<Rightarrow> py_error + results_u" where
  "set_field_u rs k f =
     (if k \<in> set (keys_u rs)
      then Inr (map (\<lambda>(k', d). if k' = k then (k', f d) else (k', d)) rs)
      else Inl KeyError)"

fun match_pillar_u :: "results_u \<Rightarrow> ustr list \<Rightarrow> ustr \<Rightarrow> ustr list \<Rightarrow> py_error + results_u" where
  "match_pillar_u rs parts pillar_name [] = Inr rs"
| "match_pillar_u rs parts pillar_name (known_pillar # ks) =
     (if py_in known_pillar pillar_name then
        bind_err (getitem parts 1) (\<lambda>p1.
        bind_err (getitem parts 2) (\<lambda>p2.
        bind_err (getitem parts 3) (\<lambda>p3.
        bind_err (getitem parts 4) (\<lambda>p4.
          let strengths' = map (strip_chars (code_points ''- '')) (py_split (code_points ''<br>'') p1);
              risks' = map (strip_chars (code_points ''- '')) (py_split (code_points ''<br>'') p2);
              risk_level' = p3;
              recommendations' = map (strip_chars (code_points ''- '')) (py_split (code_points ''<br>'') p4)
          in
        bind_err (set_field_u rs known_pillar (strengths_u_update (\<lambda>_. filter (\<lambda>s. s \<noteq> []) strengths'))) (\<lambda>rs1.
        bind_err (set_field_u rs1 known_pillar (risks_u_update (\<lambda>_. filter (\<lambda>r. r \<noteq> []) risks'))) (\<lambda>rs2.
        bind_err (set_field_u rs2 known_pillar (risk_level_u_update (\<lambda>_. risk_level'))) (\<lambda>rs3.
        set_field_u rs3 known_pillar
          (recommendations_u_update (\<lambda>_. filter (\<lambda>r. r \<noteq> []) recommendations')))))))))
      else match_pillar_u rs parts pillar_name ks)"

definition process_line_u :: "results_u \<Rightarrow> ustr \<Rightarrow> py_error + results_u" where
  "process_line_u rs line0 =
     (let line = py_strip_u line0 in
      if line = [] \<or> startswith line (code_points ''| ---'') then Inr rs
      else if startswith line (code_points ''|'') then
        (let parts = map py_strip_u (py_split (code_points ''|'') line);
             parts = filter (\<lambda>p. p \<noteq> []) parts
         in if 5 \<le> length parts then
              bind_err (getitem parts 0) (\<lambda>pillar_name.
                match_pillar_u rs parts pillar_name (keys_u rs))
            else Inr rs)
      else Inr rs)"

fun process_lines_u :: "results_u \<Rightarrow> ustr list \<Rightarrow> py_error + results_u" where
  "process_lines_u rs [] = Inr rs"
| "process_lines_u rs (line # lines) =
     bind_err (process_line_u rs line) (\<lambda>rs'. process_lines_u rs' lines)"

definition any_values_u :: "pillar_data_u \<Rightarrow> bool" where
  "any_values_u d =
     (strengths_u d \<noteq> [] \<or> risks_u d \<noteq> [] \<or> risk_level_u d \<noteq> [] \<or> recommendations_u d \<noteq> [])"

definition has_content_u :: "results_u \<Rightarrow> bool" where
  "has_content_u rs = list_ex (\<lambda>(k, d). any_values_u d) rs"

text \<open>
  The three calls of Streamlit the function makes. Each takes the text to show
  and returns nothing, or raises.
\<close>

record 'x streamlit =
  st_error :: "ustr \<Rightarrow> 'x + unit"
  st_write :: "ustr \<Rightarrow> 'x + unit"
  st_code :: "ustr \<Rightarrow> 'x + unit"

definition parse_analysis_results_st :: "'x streamlit \<Rightarrow> ustr \<Rightarrow> 'x raised + results_u option" where
  "parse_analysis_results_st st analysis_text =
     (if analysis_text = [] then
        bind_err (foreign (st_error st (code_points ''No analysis text received from the API''))) (\<lambda>_.
        Inr None)
      else
        bind_err (foreign (st_write st (code_points ''Raw Response:''))) (\<lambda>_.
        bind_err (foreign (st_code st analysis_text)) (\<lambda>_.
        bind_err (own (process_lines_u initial_results_u (py_split [10] analysis_text))) (\<lambda>rs.
          if \<not> has_content_u rs then
            bind_err (foreign (st_error st
                (code_points ''Failed to parse the analysis results properly''))) (\<lambda>_.
            Inr None)
          else Inr (Some rs)))))"

text \<open>
  What Streamlit does with the text it is given, as far as the text alone
  decides it: the text travels to the browser encoded as UTF-8, and a string
  with a surrogate code point (\<open>U+D800\<close> to \<open>U+DFFF\<close>) has no such encoding:
  \<open>UnicodeEncodeError\<close>.
\<close>

datatype encode_error = UnicodeEncodeError

definition is_surrogate :: "nat \<Rightarrow> bool" where
  "is_surrogate n = (55296 \<le> n \<and> n \<le> 57343)"

definition send_utf8 :: "ustr \<Rightarrow> encode_error + unit" where
  "send_utf8 s = (if list_ex is_surrogate s then Inl UnicodeEncodeError else Inr ())"

definition utf8_page :: "encode_error streamlit" where
  "utf8_page = \<lparr>st_error = send_utf8, st_write = send_utf8, st_code = send_utf8\<rparr>"

text \<open>
  The results over characters, read as results over code points, and a page
  whose calls always return: with them the function on any string can be
  compared with \<open>parse_analysis_results\<close> above (lemma
  \<open>parse_analysis_results_st_quiet\<close>: on a string of characters the two
  return the same).
\<close>

definition lift_data :: "pillar_data \<Rightarrow> pillar_data_u" where
  "lift_data d =
     \<lparr>strengths_u = map code_points (strengths d), risks_u = map code_points (risks d),
      risk_level_u = code_points (risk_level d),
      recommendations_u = map code_points (recommendations d)\<rparr>"

definition lift_results :: "results \<Rightarrow> results_u" where
  "lift_results rs = map (\<lambda>(k, d). (code_points k, lift_data d)) rs"

definition quiet_page :: "'x streamlit" where
  "quiet_page = \<lparr>st_error = (\<lambda>_. Inr ()), st_write = (\<lambda>_. Inr ()), st_code = (\<lambda>_. Inr ())\<rparr>"

section \<open>convert_to_jpeg\<close>





section \<open>The steps of the parser, named\<close>

text \<open>
  The cells of a row as \<open>parse_analysis_results\<close> computes them from the
  stripped line: split on \<open>|\<close>, strip every cell, keep the non-empty ones.
\<close>

definition row_parts :: "string \<Rightarrow> string list" where
  "row_parts line = filter (\<lambda>p. p \<noteq> []) (map py_strip (py_split ''|'' line))"

text \<open>
  The items of one cell: split on \<open><br>\<close>, \<open>strip('- ')\<close> on every fragment,
  keep the non-empty ones.
\<close>

definition cell_items :: "string \<Rightarrow> string list" where
  "cell_items cell = filter (\<lambda>s. s \<noteq> []) (map (strip_chars ''- '') (py_split ''<br>'' cell))"

text \<open>The four fields a row assigns, from its cells 1 to 4.\<close>

definition row_fields :: "string list \<Rightarrow> pillar_data" where
  "row_fields parts =
     \<lparr>strengths = cell_items (parts ! 1), risks = cell_items (parts ! 2),
      risk_level = parts ! 3, recommendations = cell_items (parts ! 4)\<rparr>"

text \<open>
  A line reaches the pillar loop when, stripped, it is not empty, does not start
  with \<open>| ---\<close>, starts with \<open>|\<close> and has at least five cells.
\<close>

definition is_data_row :: "string \<Rightarrow> bool" where
  "is_data_row line0 =
     (let line = py_strip line0
      in line \<noteq> [] \<and> \<not> startswith line ''| ---'' \<and> startswith line ''|''
         \<and> 5 \<le> length (row_parts line))"

text \<open>The pillar a line is assigned to: the first key contained in its cell 0.\<close>

definition row_pillar :: "string list \<Rightarrow> string \<Rightarrow> string option" where
  "row_pillar ks line0 =
     (if is_data_row line0
      then find (\<lambda>k. py_in k (row_parts (py_strip line0) ! 0)) ks
      else None)"

definition first_cell :: "string \<Rightarrow> string" where
  "first_cell line0 = (case row_parts (py_strip line0) of [] \<Rightarrow> [] | p # _ \<Rightarrow> p)"

text \<open>Replacing and updating the value of one key.\<close>

definition assign :: "results \<Rightarrow> string \<Rightarrow> pillar_data \<Rightarrow> results" where
  "assign rs k d = map (\<lambda>(k', d'). if k' = k then (k', d) else (k', d')) rs"

definition upd :: "results \<Rightarrow> string \<Rightarrow> (pillar_data \<Rightarrow> pillar_data) \<Rightarrow> results" where
  "upd rs k f = map (\<lambda>(k', d). if k' = k then (k', f d) else (k', d)) rs"

text \<open>One iteration of the loop over the lines, without the error cases.\<close>

definition step :: "results \<Rightarrow> string \<Rightarrow> results" where
  "step rs line0 =
     (case row_pillar (keys rs) line0 of
        None \<Rightarrow> rs
      | Some k \<Rightarrow> assign rs k (row_fields (row_parts (py_strip line0))))"

text \<open>Some pillar has a non-empty field.\<close>

definition nonempty_field :: "results \<Rightarrow> bool" where
  "nonempty_field rs =
     (\<exists>(k, d) \<in> set rs.
        strengths d \<noteq> [] \<or> risks d \<noteq> [] \<or> risk_level d \<noteq> [] \<or> recommendations d \<noteq> [])"

section \<open>Definitions that follow the words of the specification\<close>

text \<open>
  The specification's normalisation of a row: split on the delimiter, trim each
  cell, drop the empty cells at the two ends only.
\<close>

definition spec_row_cells :: "string \<Rightarrow> string list" where
  "spec_row_cells line =
     rev (dropWhile (\<lambda>c. c = []) (rev (dropWhile (\<lambda>c. c = []) (map py_strip (py_split ''|'' line)))))"

text \<open>
  The specification's processing of a cell: split on the line-break marker, trim
  each fragment, strip one leading bullet marker (a dash and the following
  space), drop the empty fragments.
\<close>

definition spec_strip_bullet :: "string \<Rightarrow> string" where
  "spec_strip_bullet f = (if prefix ''- '' f then drop 2 f else f)"

definition spec_cell_items :: "string \<Rightarrow> string list" where
  "spec_cell_items cell =
     filter (\<lambda>f. f \<noteq> []) (map (\<lambda>f. spec_strip_bullet (py_strip f)) (py_split ''<br>'' cell))"

text \<open>
  The specification's high-priority pairs: a risk level equals \<open>HIGH\<close> up to the
  case of each letter.
\<close>

definition same_letter :: "char \<Rightarrow> char \<Rightarrow> bool" where
  "same_letter u c = (c = u \<or> of_char c = (of_char u :: nat) + 32)"

definition spec_is_high :: "string \<Rightarrow> bool" where
  "spec_is_high s = list_all2 same_letter ''HIGH'' s"

definition spec_high_priority_pairs :: "results \<Rightarrow> (string \<times> string) list" where
  "spec_high_priority_pairs rs =
     concat (map (\<lambda>(pillar, details).
       if spec_is_high (risk_level details)
       then map (\<lambda>rec. (pillar, rec)) (recommendations details) else []) rs)"

section \<open>Splitting\<close>

text \<open>
  Two checks of \<open>py_split\<close> against \<open>str.split\<close>: joining the pieces with
  the separator gives the string back, and no piece of a split on one character
  contains that character.
\<close>

lemma py_split_acc_nonempty: "py_split_acc sep acc s \<noteq> []"
  by (induction sep acc s rule: py_split_acc.induct) simp_all

lemma py_join_Cons: "ys \<noteq> [] \<Longrightarrow> py_join sep (x # ys) = x @ sep @ py_join sep ys"
  by (cases ys) simp_all

lemma py_join_split_acc: "py_join sep (py_split_acc sep acc s) = rev acc @ s"
proof (induction sep acc s rule: py_split_acc.induct)
  case (1 sep acc)
  show ?case by simp
next
  case (2 sep acc c cs)
  show ?case
  proof (cases "sep \<noteq> [] \<and> prefix sep (c # cs)")
    case True
    then have p: "prefix sep (c # cs)" by simp
    have e: "sep @ drop (length sep) (c # cs) = c # cs"
      using p by (auto simp add: prefix_def simp del: drop_Suc_Cons)
    have s: "py_split_acc sep acc (c # cs)
          = rev acc # py_split_acc sep [] (drop (length sep) (c # cs))"
      using True by (simp del: drop_Suc_Cons)
    have "py_join sep (py_split_acc sep acc (c # cs))
          = rev acc @ sep @ py_join sep (py_split_acc sep [] (drop (length sep) (c # cs)))"
      unfolding s by (rule py_join_Cons) (rule py_split_acc_nonempty)
    also have "\<dots> = rev acc @ sep @ drop (length sep) (c # cs)"
      using 2(1)[OF True] by simp
    also have "\<dots> = rev acc @ c # cs"
      by (simp only: e)
    finally show ?thesis .
  next
    case False
    then have "py_split_acc sep acc (c # cs) = py_split_acc sep (c # acc) cs"
      by (simp only: py_split_acc.simps if_False)
    with 2(2)[OF False] show ?thesis by simp
  qed
qed

lemma py_join_split: "py_join sep (py_split sep s) = s"
  by (simp add: py_split_def py_join_split_acc)

lemma py_split_acc_char_free:
  "c \<notin> set acc \<Longrightarrow> p \<in> set (py_split_acc [c] acc s) \<Longrightarrow> c \<notin> set p"
proof (induction "[c]" acc s rule: py_split_acc.induct)
  case (1 acc)
  then show ?case by simp
next
  case (2 acc x xs)
  show ?case
  proof (cases "x = c")
    case True
    with 2 show ?thesis by (auto split: if_splits)
  next
    case False
    with 2 show ?thesis by (auto split: if_splits)
  qed
qed

lemma py_split_char_free: "p \<in> set (py_split [c] s) \<Longrightarrow> c \<notin> set p"
  unfolding py_split_def by (rule py_split_acc_char_free[of c "[]"]) simp_all

section \<open>Dictionary updates\<close>

lemma keys_upd: "keys (upd rs k f) = keys rs"
  unfolding keys_def upd_def by (induction rs) (simp_all add: split_def)

lemma upd_upd: "upd (upd rs k f) k g = upd rs k (\<lambda>d. g (f d))"
  unfolding upd_def by (induction rs) (simp_all add: split_def)

lemma assign_upd: "assign rs k d = upd rs k (\<lambda>_. d)"
  by (simp add: assign_def upd_def)

lemma keys_assign: "keys (assign rs k d) = keys rs"
  by (simp add: assign_upd keys_upd)

lemma map_of_assign_same:
  "k \<in> set (keys rs) \<Longrightarrow> map_of (assign rs k d) k = Some d"
  unfolding keys_def assign_def by (induction rs) (auto simp add: split_def)

lemma map_of_assign_other:
  "k' \<noteq> k \<Longrightarrow> map_of (assign rs k d) k' = map_of rs k'"
  unfolding assign_def by (induction rs) (auto simp add: split_def)

lemma bind_err_Inr: "bind_err (Inr x) f = f x"
  by (simp add: bind_err_def)

lemma set_field_in: "k \<in> set (keys rs) \<Longrightarrow> set_field rs k f = Inr (upd rs k f)"
  by (simp add: set_field_def upd_def)

lemma four_updates:
  assumes "k \<in> set (keys rs)"
  shows "bind_err (set_field rs k (strengths_update (\<lambda>_. a))) (\<lambda>rs1.
   bind_err (set_field rs1 k (risks_update (\<lambda>_. b))) (\<lambda>rs2.
   bind_err (set_field rs2 k (risk_level_update (\<lambda>_. c))) (\<lambda>rs3.
   set_field rs3 k (recommendations_update (\<lambda>_. e)))))
   = Inr (assign rs k \<lparr>strengths = a, risks = b, risk_level = c, recommendations = e\<rparr>)"
proof -
  have "(\<lambda>d::pillar_data. d\<lparr>strengths := a, risks := b, risk_level := c, recommendations := e\<rparr>)
      = (\<lambda>_. \<lparr>strengths = a, risks = b, risk_level = c, recommendations = e\<rparr>)"
    by (rule ext) simp
  then show ?thesis
    using assms by (simp add: set_field_in keys_upd bind_err_Inr upd_upd assign_upd)
qed

section \<open>The loop body never raises\<close>

lemma match_pillar_eq:
  assumes "5 \<le> length parts" and "set ks \<subseteq> set (keys rs)"
  shows "match_pillar rs parts name ks =
     Inr (case find (\<lambda>k. py_in k name) ks of
            None \<Rightarrow> rs
          | Some k \<Rightarrow> assign rs k (row_fields parts))"
  using assms
proof (induction ks)
  case Nil
  then show ?case by simp
next
  case (Cons k ks)
  show ?case
  proof (cases "py_in k name")
    case True
    have g: "getitem parts 1 = Inr (parts ! 1)" "getitem parts 2 = Inr (parts ! 2)"
      "getitem parts 3 = Inr (parts ! 3)" "getitem parts 4 = Inr (parts ! 4)"
      using Cons.prems(1) by (simp_all add: getitem_def)
    have k: "k \<in> set (keys rs)" using Cons.prems(2) by simp
    have "match_pillar rs parts name (k # ks) = Inr (assign rs k (row_fields parts))"
      unfolding match_pillar.simps g Let_def row_fields_def cell_items_def
      using True by (simp add: four_updates[OF k] bind_err_Inr)
    then show ?thesis using True by simp
  next
    case False
    then show ?thesis using Cons by simp
  qed
qed

lemma process_line_eq: "process_line rs line = Inr (step rs line)"
proof (cases "is_data_row line")
  case True
  define parts where "parts = row_parts (py_strip line)"
  from True have p: "5 \<le> length parts"
    and s: "py_strip line \<noteq> []" "\<not> startswith (py_strip line) ''| ---''"
           "startswith (py_strip line) ''|''"
    by (simp_all add: is_data_row_def Let_def parts_def)
  have g: "getitem parts 0 = Inr (parts ! 0)"
    using p by (cases parts) (simp_all add: getitem_def)
  have "process_line rs line = match_pillar rs parts (parts ! 0) (keys rs)"
    unfolding process_line_def Let_def row_parts_def[symmetric] parts_def[symmetric]
    using s p by (simp add: g bind_err_Inr)
  also have "\<dots> = Inr (step rs line)"
    unfolding step_def row_pillar_def parts_def
    using True by (simp add: match_pillar_eq[OF p[unfolded parts_def] subset_refl])
  finally show ?thesis .
next
  case False
  have "process_line rs line = Inr rs"
    unfolding process_line_def Let_def row_parts_def[symmetric]
    using False by (auto simp add: is_data_row_def Let_def)
  then show ?thesis
    using False by (simp add: step_def row_pillar_def)
qed

lemma keys_step: "keys (step rs line) = keys rs"
  by (simp add: step_def keys_assign split: option.splits)

lemma process_lines_eq: "process_lines rs lines = Inr (foldl step rs lines)"
  by (induction lines arbitrary: rs) (simp_all add: process_line_eq bind_err_def)

lemma keys_foldl_step: "keys (foldl step rs lines) = keys rs"
  by (induction lines arbitrary: rs) (simp_all add: keys_step)

section \<open>Stripping\<close>

lemma strip_where_decomp:
  "\<exists>a b. s = a @ strip_where P s @ b \<and> (\<forall>c\<in>set a. P c) \<and> (\<forall>c\<in>set b. P c)"
proof -
  define t where "t = dropWhile P s"
  have s: "s = takeWhile P s @ t" by (simp add: t_def)
  have "rev (dropWhile P (rev t)) @ rev (takeWhile P (rev t))
      = rev (takeWhile P (rev t) @ dropWhile P (rev t))"
    by (simp only: rev_append)
  also have "\<dots> = rev (rev t)" by (simp only: takeWhile_dropWhile_id)
  finally have t: "t = rev (dropWhile P (rev t)) @ rev (takeWhile P (rev t))" by simp
  have "s = takeWhile P s @ strip_where P s @ rev (takeWhile P (rev t))"
    using s t by (simp add: strip_where_def t_def[symmetric])
  moreover have "\<forall>c\<in>set (takeWhile P s). P c" by (auto dest: set_takeWhileD)
  moreover have "\<forall>c\<in>set (rev (takeWhile P (rev t))). P c" by (auto dest: set_takeWhileD)
  ultimately show ?thesis by blast
qed

lemma last_dropWhile_nonempty: "dropWhile P xs \<noteq> [] \<Longrightarrow> last (dropWhile P xs) = last xs"
proof -
  assume a: "dropWhile P xs \<noteq> []"
  have "last xs = last (takeWhile P xs @ dropWhile P xs)" by simp
  also have "\<dots> = last (dropWhile P xs)" by (rule last_appendR[OF a])
  finally show ?thesis by simp
qed

lemma strip_where_ends:
  assumes "strip_where P s \<noteq> []"
  shows "\<not> P (hd (strip_where P s)) \<and> \<not> P (last (strip_where P s))"
proof -
  define t where "t = dropWhile P s"
  define u where "u = dropWhile P (rev t)"
  have r: "strip_where P s = rev u" by (simp add: strip_where_def t_def u_def)
  with assms have u: "u \<noteq> []" by simp
  then have t: "t \<noteq> []" by (auto simp: u_def)
  have "last (rev u) = hd u" using u by (simp add: last_rev)
  moreover have "\<not> P (hd u)" using u unfolding u_def by (rule hd_dropWhile)
  moreover have "hd (rev u) = last u" using u by (simp add: hd_rev)
  moreover have "last u = last (rev t)" using u unfolding u_def by (rule last_dropWhile_nonempty)
  moreover have "last (rev t) = hd t" using t by (simp add: last_rev)
  moreover have "\<not> P (hd t)" using t unfolding t_def by (rule hd_dropWhile)
  ultimately show ?thesis by (simp add: r)
qed

lemma strip_where_idem: "strip_where P (strip_where P s) = strip_where P s"
proof (cases "strip_where P s = []")
  case True
  show ?thesis unfolding True by (simp add: strip_where_def)
next
  case False
  define r where "r = strip_where P s"
  from strip_where_ends[OF False] have e: "\<not> P (hd r)" "\<not> P (last r)" by (simp_all add: r_def)
  from False have n: "r \<noteq> []" by (simp add: r_def)
  have 1: "dropWhile P r = r" using e(1) by (simp add: dropWhile_eq_self_iff)
  have 2: "dropWhile P (rev r) = rev r" using e(2) by (simp add: dropWhile_eq_self_iff hd_rev)
  show ?thesis unfolding r_def[symmetric] by (simp add: strip_where_def[of P r] 1 2)
qed

lemma strip_where_Nil_iff: "strip_where P s = [] \<longleftrightarrow> (\<forall>c\<in>set s. P c)"
proof
  assume "strip_where P s = []"
  with strip_where_decomp[of s P] show "\<forall>c\<in>set s. P c"
    by (metis append_Nil2 set_append Un_iff)
next
  assume "\<forall>c\<in>set s. P c"
  then have d: "dropWhile P s = []" by simp
  show "strip_where P s = []" unfolding strip_where_def d by simp
qed

section \<open>Rows and the fold over the lines\<close>

lemma row_parts_nonempty: "p \<in> set (row_parts line) \<Longrightarrow> p \<noteq> []"
  by (simp add: row_parts_def)

lemma row_parts_stripped: "p \<in> set (row_parts line) \<Longrightarrow> py_strip p = p"
  by (auto simp add: row_parts_def py_strip_def strip_where_idem)

lemma row_pillar_in_keys: "row_pillar ks line = Some k \<Longrightarrow> k \<in> set ks"
  by (auto simp add: row_pillar_def find_Some_iff split: if_splits)

lemma map_of_step:
  "map_of (step rs line) k =
     (if row_pillar (keys rs) line = Some k
      then Some (row_fields (row_parts (py_strip line)))
      else map_of rs k)"
proof (cases "row_pillar (keys rs) line")
  case None
  then show ?thesis by (simp add: step_def)
next
  case (Some k0)
  then have "k0 \<in> set (keys rs)" by (rule row_pillar_in_keys)
  then show ?thesis
    using Some by (cases "k = k0") (simp_all add: step_def map_of_assign_same map_of_assign_other)
qed

lemma map_of_foldl_step_other:
  "\<forall>z\<in>set zs. row_pillar (keys rs) z \<noteq> Some k \<Longrightarrow> map_of (foldl step rs zs) k = map_of rs k"
  by (induction zs arbitrary: rs) (simp_all add: keys_step map_of_step)

lemma foldl_step_none:
  "\<forall>z\<in>set zs. row_pillar (keys rs) z = None \<Longrightarrow> foldl step rs zs = rs"
  by (induction zs arbitrary: rs) (simp_all add: step_def)

lemma map_of_foldl_step_last:
  assumes "row_pillar (keys rs) l = Some k"
    and "\<forall>z\<in>set zs. row_pillar (keys rs) z \<noteq> Some k"
  shows "map_of (foldl step rs (xs @ l # zs)) k = Some (row_fields (row_parts (py_strip l)))"
proof -
  define rs1 where "rs1 = step (foldl step rs xs) l"
  have k1: "keys rs1 = keys rs" by (simp add: rs1_def keys_step keys_foldl_step)
  have "map_of rs1 k = Some (row_fields (row_parts (py_strip l)))"
    using assms(1) by (simp add: rs1_def map_of_step keys_foldl_step)
  moreover have "map_of (foldl step rs1 zs) k = map_of rs1 k"
    using assms(2) by (intro map_of_foldl_step_other) (simp add: k1)
  ultimately show ?thesis by (simp add: rs1_def)
qed

lemma has_content_iff: "has_content rs \<longleftrightarrow> (\<exists>(k, d) \<in> set rs. any_values d)"
  by (simp add: has_content_def list_ex_iff)

lemma has_content_map_of:
  assumes "map_of rs k = Some d" and "any_values d"
  shows "has_content rs"
proof -
  from assms(1) have "(k, d) \<in> set rs" by (rule map_of_SomeD)
  with assms(2) show ?thesis unfolding has_content_iff by blast
qed

lemma row_fields_any_values:
  assumes "is_data_row line"
  shows "any_values (row_fields (row_parts (py_strip line)))"
proof -
  from assms have "5 \<le> length (row_parts (py_strip line))"
    by (simp add: is_data_row_def Let_def)
  then have "row_parts (py_strip line) ! 3 \<in> set (row_parts (py_strip line))" by simp
  then have "row_parts (py_strip line) ! 3 \<noteq> []" by (rule row_parts_nonempty)
  then show ?thesis by (simp add: any_values_def row_fields_def)
qed

lemma not_has_content_initial: "\<not> has_content initial_results"
  by (simp add: has_content_def initial_results_def any_values_def empty_pillar_def)

lemma parse_eq:
  "parse_analysis_results text =
     (if text = [] then Inr None
      else if has_content (foldl step initial_results (py_split [CHR 0x0A] text))
           then Inr (Some (foldl step initial_results (py_split [CHR 0x0A] text)))
           else Inr None)"
  by (simp add: parse_analysis_results_def process_lines_eq bind_err_Inr)

lemma row_pillar_None_first_cell:
  assumes "startswith (py_strip line) ''|'' \<longrightarrow> (\<forall>k\<in>set ks. \<not> py_in k (first_cell line))"
  shows "row_pillar ks line = None"
proof (cases "is_data_row line")
  case False
  then show ?thesis by (simp add: row_pillar_def)
next
  case True
  then have s: "startswith (py_strip line) ''|''" and p: "5 \<le> length (row_parts (py_strip line))"
    by (simp_all add: is_data_row_def Let_def)
  from p have "first_cell line = row_parts (py_strip line) ! 0"
    by (cases "row_parts (py_strip line)") (simp_all add: first_cell_def)
  with assms s have "\<forall>k\<in>set ks. \<not> py_in k (row_parts (py_strip line) ! 0)" by simp
  then show ?thesis by (simp add: row_pillar_def find_None_iff)
qed

lemma length_filter_map: "length (filter P (map f xs)) = length (filter (\<lambda>x. P (f x)) xs)"
  by (induction xs) simp_all

section \<open>Upper-casing\<close>

lemma upper_char_nonempty: "upper_char c \<noteq> []"
  by (simp add: upper_char_def Let_def)

lemma upper_Nil_iff: "upper s = [] \<longleftrightarrow> s = []"
  by (cases s) (simp_all add: upper_def upper_char_nonempty)

lemma upper_Cons: "upper (c # s) = upper_char c @ upper s"
  by (simp add: upper_def)

lemma upper_char_letter:
  assumes "n = 71 \<or> n = 72 \<or> n = 73"
  shows "upper_char c @ r = n # t \<longleftrightarrow>
         (of_char c = n \<or> of_char c = n + 32) \<and> r = t"
  using assms by (auto simp add: upper_char_def Let_def split: if_splits)

lemma upper_char_letter_single:
  assumes "n = 71 \<or> n = 72 \<or> n = 73"
  shows "upper_char c = [n] \<longleftrightarrow> (of_char c = n \<or> of_char c = n + 32)"
  using upper_char_letter[OF assms, of c "[]" "[]"] by simp

lemma same_letter_code: "same_letter u c \<longleftrightarrow> (of_char c = (of_char u :: nat) \<or> of_char c = (of_char u :: nat) + 32)"
  by (simp add: same_letter_def)

lemma upper_HIGH_iff: "upper s = code_points ''HIGH'' \<longleftrightarrow> spec_is_high s"
proof -
  have "upper s = [72, 73, 71, 72] \<longleftrightarrow>
        (\<exists>c1 c2 c3 c4. s = [c1, c2, c3, c4] \<and> same_letter CHR ''H'' c1 \<and> same_letter CHR ''I'' c2
             \<and> same_letter CHR ''G'' c3 \<and> same_letter CHR ''H'' c4)" (is "?L \<longleftrightarrow> ?R")
  proof
    assume L: ?L
    then obtain c1 s1 where s: "s = c1 # s1" by (cases s) (simp_all add: upper_def)
    with L have 1: "upper_char c1 @ upper s1 = 72 # [73, 71, 72]" by (simp add: upper_Cons)
    then have c1: "of_char c1 = (72::nat) \<or> of_char c1 = (72::nat) + 32" and u1: "upper s1 = [73, 71, 72]"
      by (simp_all add: upper_char_letter)
    from u1 obtain c2 s2 where s1: "s1 = c2 # s2" by (cases s1) (simp_all add: upper_def)
    with u1 have "upper_char c2 @ upper s2 = 73 # [71, 72]" by (simp add: upper_Cons)
    then have c2: "of_char c2 = (73::nat) \<or> of_char c2 = (73::nat) + 32" and u2: "upper s2 = [71, 72]"
      by (simp_all add: upper_char_letter)
    from u2 obtain c3 s3 where s2: "s2 = c3 # s3" by (cases s2) (simp_all add: upper_def)
    with u2 have "upper_char c3 @ upper s3 = 71 # [72]" by (simp add: upper_Cons)
    then have c3: "of_char c3 = (71::nat) \<or> of_char c3 = (71::nat) + 32" and u3: "upper s3 = [72]"
      by (simp_all add: upper_char_letter)
    from u3 obtain c4 s4 where s3: "s3 = c4 # s4" by (cases s3) (simp_all add: upper_def)
    with u3 have "upper_char c4 @ upper s4 = 72 # []" by (simp add: upper_Cons)
    then have "(of_char c4 = (72::nat) \<or> of_char c4 = (72::nat) + 32) \<and> upper s4 = []"
      using upper_char_letter[of 72 c4 "upper s4" "[]"] by simp
    then have c4: "of_char c4 = (72::nat) \<or> of_char c4 = (72::nat) + 32" and u4: "upper s4 = []"
      by simp_all
    from u4 have "s4 = []" by (simp add: upper_Nil_iff)
    with s s1 s2 s3 c1 c2 c3 c4 show ?R by (simp add: same_letter_code)
  next
    assume ?R
    then obtain c1 c2 c3 c4 where s: "s = [c1, c2, c3, c4]"
      and c: "same_letter CHR ''H'' c1" "same_letter CHR ''I'' c2"
             "same_letter CHR ''G'' c3" "same_letter CHR ''H'' c4"
      by blast
    from c have "upper_char c1 @ [73, 71, 72] = 72 # [73, 71, 72]"
      "upper_char c2 @ [71, 72] = 73 # [71, 72]" "upper_char c3 @ [72] = 71 # [72]"
      "upper_char c4 @ [] = 72 # []"
      by (simp_all add: upper_char_letter upper_char_letter_single same_letter_code)
    then show ?L by (simp add: s upper_def)
  qed
  moreover have "code_points ''HIGH'' = [72, 73, 71, 72]" by (simp add: code_points_def)
  moreover have "spec_is_high s \<longleftrightarrow> (\<exists>c1 c2 c3 c4. s = [c1, c2, c3, c4] \<and> same_letter CHR ''H'' c1 \<and> same_letter CHR ''I'' c2
             \<and> same_letter CHR ''G'' c3 \<and> same_letter CHR ''H'' c4)"
    by (auto simp add: spec_is_high_def list_all2_Cons1)
  ultimately show ?thesis by simp
qed

lemma high_priority_items_Cons:
  "high_priority_items ((p, d) # rs) =
     (if upper (risk_level d) = code_points ''HIGH''
      then map (\<lambda>rec. p @ '': '' @ rec) (recommendations d) else []) @ high_priority_items rs"
proof -
  have "concat (map (\<lambda>rec. if b then [p @ '': '' @ rec] else []) xs)
        = (if b then map (\<lambda>rec. p @ '': '' @ rec) xs else [])" for b xs
    by (induction xs) simp_all
  then show ?thesis by (simp add: high_priority_items_def)
qed

section \<open>The parser on any string never raises by itself\<close>

lemma set_field_u_in:
  "k \<in> set (keys_u rs) \<Longrightarrow>
   \<exists>rs'. set_field_u rs k f = Inr rs' \<and> keys_u rs' = keys_u rs"
  unfolding set_field_u_def keys_u_def by (induction rs) (auto simp add: split_def)

lemma four_updates_u:
  assumes "k \<in> set (keys_u rs)"
  shows "\<exists>rs'. bind_err (set_field_u rs k f1) (\<lambda>rs1.
     bind_err (set_field_u rs1 k f2) (\<lambda>rs2.
     bind_err (set_field_u rs2 k f3) (\<lambda>rs3.
     set_field_u rs3 k f4))) = Inr rs'"
proof -
  from set_field_u_in[OF assms] obtain rs1 where
    1: "set_field_u rs k f1 = Inr rs1" and k1: "keys_u rs1 = keys_u rs" by blast
  from assms k1 have "k \<in> set (keys_u rs1)" by simp
  from set_field_u_in[OF this] obtain rs2 where
    2: "set_field_u rs1 k f2 = Inr rs2" and k2: "keys_u rs2 = keys_u rs1" by blast
  from assms k1 k2 have "k \<in> set (keys_u rs2)" by simp
  from set_field_u_in[OF this] obtain rs3 where
    3: "set_field_u rs2 k f3 = Inr rs3" and k3: "keys_u rs3 = keys_u rs2" by blast
  from assms k1 k2 k3 have "k \<in> set (keys_u rs3)" by simp
  from set_field_u_in[OF this] obtain rs4 where
    4: "set_field_u rs3 k f4 = Inr rs4" by blast
  show ?thesis by (simp add: 1 2 3 4 bind_err_Inr)
qed

lemma match_pillar_u_returns:
  assumes "5 \<le> length parts" and "set ks \<subseteq> set (keys_u rs)"
  shows "\<exists>rs'. match_pillar_u rs parts name ks = Inr rs'"
  using assms
proof (induction ks)
  case Nil
  then show ?case by simp
next
  case (Cons k ks)
  show ?case
  proof (cases "py_in k name")
    case True
    have g: "getitem parts 1 = Inr (parts ! 1)" "getitem parts 2 = Inr (parts ! 2)"
      "getitem parts 3 = Inr (parts ! 3)" "getitem parts 4 = Inr (parts ! 4)"
      using Cons.prems(1) by (simp_all add: getitem_def)
    have k: "k \<in> set (keys_u rs)" using Cons.prems(2) by simp
    show ?thesis
      unfolding match_pillar_u.simps g Let_def
      using True by (simp add: bind_err_Inr four_updates_u[OF k])
  next
    case False
    then show ?thesis using Cons by simp
  qed
qed

lemma process_line_u_returns: "\<exists>rs'. process_line_u rs line = Inr rs'"
proof -
  define parts where
    "parts = filter (\<lambda>p. p \<noteq> []) (map py_strip_u (py_split (code_points ''|'') (py_strip_u line)))"
  show ?thesis
  proof (cases "5 \<le> length parts")
    case True
    then have g: "getitem parts 0 = Inr (parts ! 0)"
      by (cases parts) (simp_all add: getitem_def)
    from match_pillar_u_returns[OF True subset_refl]
    obtain rs' where "match_pillar_u rs parts (parts ! 0) (keys_u rs) = Inr rs'" by blast
    then show ?thesis
      unfolding process_line_u_def Let_def parts_def[symmetric]
      by (simp add: g bind_err_Inr)
  next
    case False
    then show ?thesis
      unfolding process_line_u_def Let_def parts_def[symmetric] by simp
  qed
qed

lemma process_lines_u_returns: "\<exists>rs'. process_lines_u rs lines = Inr rs'"
proof (induction lines arbitrary: rs)
  case Nil
  show ?case by simp
next
  case (Cons line lines)
  from process_line_u_returns obtain rs1 where 1: "process_line_u rs line = Inr rs1" by blast
  from Cons[of rs1] show ?case by (simp add: 1 bind_err_Inr)
qed

lemma foreign_Inr: "foreign (Inr v) = Inr v"
  by (simp add: foreign_def)

lemma own_Inr: "own (Inr v) = Inr v"
  by (simp add: own_def)

lemma foreign_not_Own: "foreign m \<noteq> Inl (Own e)"
  by (simp add: foreign_def split: sum.splits)

lemma bind_err_Inl_iff:
  "bind_err m f = Inl e \<longleftrightarrow> m = Inl e \<or> (\<exists>v. m = Inr v \<and> f v = Inl e)"
  by (cases m) (simp_all add: bind_err_def)

lemma send_utf8_literals:
  "send_utf8 (code_points ''No analysis text received from the API'') = Inr ()"
  "send_utf8 (code_points ''Failed to parse the analysis results properly'') = Inr ()"
  "send_utf8 (code_points ''Raw Response:'') = Inr ()"
  by (simp_all add: send_utf8_def code_points_def is_surrogate_def)

section \<open>The two levels agree on strings of characters\<close>

lemma prefix_map_inj_iff: "inj f \<Longrightarrow> prefix (map f xs) (map f ys) \<longleftrightarrow> prefix xs ys"
proof (induction xs arbitrary: ys)
  case Nil
  show ?case by simp
next
  case (Cons x xs)
  then show ?case by (cases ys) (auto dest: injD)
qed

lemma sublist_map_inj_iff: "inj f \<Longrightarrow> sublist (map f xs) (map f ys) \<longleftrightarrow> sublist xs ys"
proof (induction ys)
  case Nil
  show ?case by simp
next
  case (Cons y ys)
  show ?case
  proof (cases xs)
    case Nil
    then show ?thesis by simp
  next
    case (Cons x xs')
    have "prefix (map f (x # xs')) (map f (y # ys)) \<longleftrightarrow> prefix (x # xs') (y # ys)"
      using \<open>inj f\<close> by (rule prefix_map_inj_iff)
    moreover have "sublist (map f (x # xs')) (map f ys) \<longleftrightarrow> sublist (x # xs') ys"
      using Cons.IH[OF \<open>inj f\<close>] Cons by simp
    ultimately show ?thesis
      using Cons by (simp add: sublist_Cons_right)
  qed
qed

lemma inj_of_char_nat: "inj (of_char :: char \<Rightarrow> nat)"
  by (rule injI) simp

lemma code_points_eq_iff: "code_points s = code_points t \<longleftrightarrow> s = t"
  unfolding code_points_def by (rule inj_map_eq_map[OF inj_of_char_nat])

lemma code_points_Nil_iff: "code_points s = [] \<longleftrightarrow> s = []"
  by (simp add: code_points_def)

lemma code_points_Nil: "code_points [] = []"
  by (simp add: code_points_def)

lemma startswith_code_points: "startswith (code_points s) (code_points p) = startswith s p"
  by (simp add: startswith_def code_points_def prefix_map_inj_iff[OF inj_of_char_nat])

lemma py_in_code_points: "py_in (code_points k) (code_points s) = py_in k s"
  by (simp add: py_in_def code_points_def sublist_map_inj_iff[OF inj_of_char_nat])

lemma strip_where_map: "strip_where P (map f s) = map f (strip_where (P \<circ> f) s)"
  by (simp add: strip_where_def dropWhile_map rev_map)

lemma isspace_u_of_char: "isspace_u (of_char c) = isspace c"
proof -
  define n where "n = (of_char c :: nat)"
  have "n < 256" by (simp add: n_def)
  then have "isspace_u n \<longleftrightarrow> (9 \<le> n \<and> n \<le> 13) \<or> (28 \<le> n \<and> n \<le> 32) \<or> n = 133 \<or> n = 160"
    unfolding isspace_u_def by arith
  then show ?thesis by (simp add: isspace_def Let_def n_def)
qed

lemma py_strip_u_code_points: "py_strip_u (code_points s) = code_points (py_strip s)"
proof -
  have "isspace_u \<circ> of_char = isspace" by (rule ext) (simp add: isspace_u_of_char)
  then show ?thesis
    by (simp add: py_strip_u_def py_strip_def code_points_def strip_where_map)
qed

lemma strip_chars_code_points:
  "strip_chars (code_points cs) (code_points s) = code_points (strip_chars cs s)"
proof -
  have "(\<lambda>n. n \<in> set (map of_char cs)) \<circ> (of_char :: char \<Rightarrow> nat) = (\<lambda>c. c \<in> set cs)"
    by (rule ext) (auto simp add: image_iff)
  then show ?thesis
    by (simp add: strip_chars_def code_points_def strip_where_map)
qed

lemma py_split_acc_map:
  "inj f \<Longrightarrow> py_split_acc (map f sep) (map f acc) (map f s) = map (map f) (py_split_acc sep acc s)"
proof (induction sep acc s rule: py_split_acc.induct)
  case (1 sep acc)
  show ?case by (simp add: rev_map)
next
  case (2 sep acc c cs)
  have p: "prefix (map f sep) (f c # map f cs) \<longleftrightarrow> prefix sep (c # cs)"
    using prefix_map_inj_iff[OF \<open>inj f\<close>, of sep "c # cs"] by simp
  show ?case
  proof (cases "sep \<noteq> [] \<and> prefix sep (c # cs)")
    case True
    have d: "drop (length sep) (f c # map f cs) = map f (drop (length sep) (c # cs))"
      using drop_map[of "length sep" f "c # cs"] by simp
    have "py_split_acc (map f sep) (map f acc) (f c # map f cs)
        = rev (map f acc) # py_split_acc (map f sep) [] (drop (length (map f sep)) (f c # map f cs))"
      using True p by (simp del: drop_Suc_Cons)
    also have "\<dots> = map f (rev acc) # map (map f) (py_split_acc sep [] (drop (length sep) (c # cs)))"
      using "2.IH"(1)[OF True \<open>inj f\<close>] by (simp add: d rev_map del: drop_Suc_Cons)
    also have "\<dots> = map (map f) (py_split_acc sep acc (c # cs))"
      using True by (simp del: drop_Suc_Cons)
    finally show ?thesis by simp
  next
    case False
    then have 1: "py_split_acc sep acc (c # cs) = py_split_acc sep (c # acc) cs"
      by (simp only: py_split_acc.simps if_False)
    from False p have "\<not> (map f sep \<noteq> [] \<and> prefix (map f sep) (f c # map f cs))" by simp
    then have 2: "py_split_acc (map f sep) (map f acc) (f c # map f cs)
        = py_split_acc (map f sep) (f c # map f acc) (map f cs)"
      by (simp only: py_split_acc.simps if_False)
    have ih: "py_split_acc (map f sep) (f c # map f acc) (map f cs)
        = map (map f) (py_split_acc sep (c # acc) cs)"
      using "2.IH"(2)[OF False \<open>inj f\<close>] by simp
    show ?thesis by (simp only: list.map 2 ih 1)
  qed
qed

lemma py_split_code_points:
  "py_split (code_points sep) (code_points s) = map code_points (py_split sep s)"
  using py_split_acc_map[OF inj_of_char_nat, of sep "[]" s]
  by (simp add: py_split_def code_points_def)

lemma filter_nonempty_code_points:
  "filter (\<lambda>p. p \<noteq> []) (map code_points xs) = map code_points (filter (\<lambda>p. p \<noteq> []) xs)"
  by (induction xs) (simp_all add: code_points_Nil_iff)

lemma getitem_map: "getitem (map g xs) i = map_sum id g (getitem xs i)"
  by (simp add: getitem_def)

lemma bind_err_map_sum:
  "(\<And>x. F' (g x) = map_sum id h (F x)) \<Longrightarrow>
   bind_err (map_sum id g m) F' = map_sum id h (bind_err m F)"
  by (cases m) (simp_all add: bind_err_def)

lemma keys_u_lift: "keys_u (lift_results rs) = map code_points (keys rs)"
  by (simp add: keys_u_def keys_def lift_results_def split_def)

lemma set_field_lift:
  assumes "\<And>d. f' (lift_data d) = lift_data (f d)"
  shows "set_field_u (lift_results rs) (code_points k) f' = map_sum id lift_results (set_field rs k f)"
proof -
  have m: "code_points k \<in> code_points ` set (keys rs) \<longleftrightarrow> k \<in> set (keys rs)"
    by (auto simp add: code_points_eq_iff)
  have "map (\<lambda>(k', d). if k' = code_points k then (k', f' d) else (k', d)) (lift_results rs)
      = lift_results (map (\<lambda>(k', d). if k' = k then (k', f d) else (k', d)) rs)"
    unfolding lift_results_def
    by (induction rs) (simp_all add: split_def code_points_eq_iff assms)
  then show ?thesis
    by (simp add: set_field_u_def set_field_def keys_u_lift m)
qed

lemma four_updates_lift:
  "bind_err (set_field_u (lift_results rs) (code_points k)
       (strengths_u_update (\<lambda>_. map code_points a))) (\<lambda>rs1.
   bind_err (set_field_u rs1 (code_points k) (risks_u_update (\<lambda>_. map code_points b))) (\<lambda>rs2.
   bind_err (set_field_u rs2 (code_points k) (risk_level_u_update (\<lambda>_. code_points c))) (\<lambda>rs3.
   set_field_u rs3 (code_points k) (recommendations_u_update (\<lambda>_. map code_points e)))))
   = map_sum id lift_results
      (bind_err (set_field rs k (strengths_update (\<lambda>_. a))) (\<lambda>rs1.
       bind_err (set_field rs1 k (risks_update (\<lambda>_. b))) (\<lambda>rs2.
       bind_err (set_field rs2 k (risk_level_update (\<lambda>_. c))) (\<lambda>rs3.
       set_field rs3 k (recommendations_update (\<lambda>_. e))))))"
proof -
  have s1: "set_field_u (lift_results r) (code_points k) (strengths_u_update (\<lambda>_. map code_points a))
      = map_sum id lift_results (set_field r k (strengths_update (\<lambda>_. a)))" for r
    by (rule set_field_lift) (simp add: lift_data_def)
  have s2: "set_field_u (lift_results r) (code_points k) (risks_u_update (\<lambda>_. map code_points b))
      = map_sum id lift_results (set_field r k (risks_update (\<lambda>_. b)))" for r
    by (rule set_field_lift) (simp add: lift_data_def)
  have s3: "set_field_u (lift_results r) (code_points k) (risk_level_u_update (\<lambda>_. code_points c))
      = map_sum id lift_results (set_field r k (risk_level_update (\<lambda>_. c)))" for r
    by (rule set_field_lift) (simp add: lift_data_def)
  have s4: "set_field_u (lift_results r) (code_points k) (recommendations_u_update (\<lambda>_. map code_points e))
      = map_sum id lift_results (set_field r k (recommendations_update (\<lambda>_. e)))" for r
    by (rule set_field_lift) (simp add: lift_data_def)
  show ?thesis
    apply (subst s1)
    apply (rule bind_err_map_sum)
    apply (subst s2)
    apply (rule bind_err_map_sum)
    apply (subst s3)
    apply (rule bind_err_map_sum)
    apply (rule s4)
    done
qed

lemma match_pillar_lift:
  "match_pillar_u (lift_results rs) (map code_points parts) (code_points name) (map code_points ks)
   = map_sum id lift_results (match_pillar rs parts name ks)"
proof (induction ks)
  case Nil
  show ?case by simp
next
  case (Cons k ks)
  show ?case
  proof (cases "py_in k name")
    case False
    with Cons show ?thesis by (simp add: py_in_code_points)
  next
    case True
    have items: "filter (\<lambda>s. s \<noteq> []) (map (strip_chars (code_points ''- ''))
                    (py_split (code_points ''<br>'') (code_points p)))
        = map code_points (filter (\<lambda>s. s \<noteq> []) (map (strip_chars ''- '') (py_split ''<br>'' p)))" for p
      by (simp add: py_split_code_points filter_nonempty_code_points[symmetric]
          strip_chars_code_points o_def)
    have u: "match_pillar_u (lift_results rs) (map code_points parts) (code_points name)
               (map code_points (k # ks))
        = bind_err (map_sum id code_points (getitem parts 1)) (\<lambda>p1.
          bind_err (map_sum id code_points (getitem parts 2)) (\<lambda>p2.
          bind_err (map_sum id code_points (getitem parts 3)) (\<lambda>p3.
          bind_err (map_sum id code_points (getitem parts 4)) (\<lambda>p4.
          bind_err (set_field_u (lift_results rs) (code_points k)
             (strengths_u_update (\<lambda>_. filter (\<lambda>s. s \<noteq> [])
                (map (strip_chars (code_points ''- '')) (py_split (code_points ''<br>'') p1))))) (\<lambda>rs1.
          bind_err (set_field_u rs1 (code_points k)
             (risks_u_update (\<lambda>_. filter (\<lambda>r. r \<noteq> [])
                (map (strip_chars (code_points ''- '')) (py_split (code_points ''<br>'') p2))))) (\<lambda>rs2.
          bind_err (set_field_u rs2 (code_points k) (risk_level_u_update (\<lambda>_. p3))) (\<lambda>rs3.
          set_field_u rs3 (code_points k)
             (recommendations_u_update (\<lambda>_. filter (\<lambda>r. r \<noteq> [])
                (map (strip_chars (code_points ''- ''))
                   (py_split (code_points ''<br>'') p4)))))))))))"
      using True by (simp add: py_in_code_points getitem_map Let_def)
    have v: "match_pillar rs parts name (k # ks)
        = bind_err (getitem parts 1) (\<lambda>p1.
          bind_err (getitem parts 2) (\<lambda>p2.
          bind_err (getitem parts 3) (\<lambda>p3.
          bind_err (getitem parts 4) (\<lambda>p4.
          bind_err (set_field rs k
             (strengths_update (\<lambda>_. filter (\<lambda>s. s \<noteq> [])
                (map (strip_chars ''- '') (py_split ''<br>'' p1))))) (\<lambda>rs1.
          bind_err (set_field rs1 k
             (risks_update (\<lambda>_. filter (\<lambda>r. r \<noteq> [])
                (map (strip_chars ''- '') (py_split ''<br>'' p2))))) (\<lambda>rs2.
          bind_err (set_field rs2 k (risk_level_update (\<lambda>_. p3))) (\<lambda>rs3.
          set_field rs3 k
             (recommendations_update (\<lambda>_. filter (\<lambda>r. r \<noteq> [])
                (map (strip_chars ''- '') (py_split ''<br>'' p4)))))))))))"
      using True by (simp add: Let_def)
    show ?thesis
      unfolding u v
      apply (rule bind_err_map_sum)+
      apply (simp only: items)
      apply (rule four_updates_lift)
      done
  qed
qed

lemma row_parts_lift:
  "filter (\<lambda>p. p \<noteq> []) (map py_strip_u (py_split (code_points ''|'') (code_points line)))
   = map code_points (filter (\<lambda>p. p \<noteq> []) (map py_strip (py_split ''|'' line)))"
  by (simp add: py_split_code_points filter_nonempty_code_points[symmetric]
      py_strip_u_code_points o_def)

lemma process_line_lift:
  "process_line_u (lift_results rs) (code_points line)
   = map_sum id lift_results (process_line rs line)"
proof -
  define parts where "parts = filter (\<lambda>p. p \<noteq> []) (map py_strip (py_split ''|'' (py_strip line)))"
  have m: "bind_err (getitem (map code_points parts) 0)
             (\<lambda>pillar_name. match_pillar_u (lift_results rs) (map code_points parts) pillar_name
                 (keys_u (lift_results rs)))
        = map_sum id lift_results
            (bind_err (getitem parts 0) (\<lambda>pillar_name. match_pillar rs parts pillar_name (keys rs)))"
    unfolding getitem_map keys_u_lift
    by (rule bind_err_map_sum) (rule match_pillar_lift)
  show ?thesis
    unfolding process_line_u_def process_line_def Let_def py_strip_u_code_points row_parts_lift
      parts_def[symmetric]
    by (simp add: startswith_code_points code_points_Nil_iff m)
qed

lemma process_lines_lift:
  "process_lines_u (lift_results rs) (map code_points lines)
   = map_sum id lift_results (process_lines rs lines)"
proof (induction lines arbitrary: rs)
  case Nil
  show ?case by simp
next
  case (Cons line lines)
  show ?case
    unfolding process_lines_u.simps process_lines.simps list.map process_line_lift
    by (rule bind_err_map_sum) (rule Cons)
qed

lemma has_content_lift: "has_content_u (lift_results rs) = has_content rs"
  unfolding has_content_u_def has_content_def lift_results_def
  by (induction rs)
    (simp_all add: split_def any_values_u_def any_values_def lift_data_def code_points_Nil_iff)

lemma initial_results_lift: "initial_results_u = lift_results initial_results"
  by (simp add: initial_results_u_def initial_results_def lift_results_def lift_data_def
      empty_pillar_u_def empty_pillar_def code_points_Nil)

lemma parse_analysis_results_st_quiet:
  "parse_analysis_results_st quiet_page (code_points text)
   = (case parse_analysis_results text of
        Inl e \<Rightarrow> Inl (Own e)
      | Inr r \<Rightarrow> Inr (map_option lift_results r))"
proof -
  have nl: "[10] = code_points [CHR 0x0A]" by (simp add: code_points_def)
  have l: "process_lines_u initial_results_u (py_split [10] (code_points text))
      = map_sum id lift_results (process_lines initial_results (py_split [CHR 0x0A] text))"
    unfolding nl py_split_code_points initial_results_lift by (rule process_lines_lift)
  show ?thesis
    unfolding parse_analysis_results_st_def parse_analysis_results_def l
    by (cases "process_lines initial_results (py_split [CHR 0x0A] text)")
      (simp_all add: quiet_page_def foreign_def own_def bind_err_def code_points_Nil_iff
        code_points_Nil has_content_lift)
qed

section \<open>The end-to-end example\<close>

text \<open>
  C1. Parsing the row
  \<open>| Security | Uses IAM roles<br>- Encrypted at rest | No MFA enforced | High | Enable MFA<br>- Rotate keys |\<close>
  gives the Security pillar the strengths \<open>Uses IAM roles\<close> and
  \<open>Encrypted at rest\<close>, the risk \<open>No MFA enforced\<close>, the risk level
  \<open>High\<close> and the recommendations \<open>Enable MFA\<close> and \<open>Rotate keys\<close>; the
  other five pillars stay empty, and the high-priority items of the result are
  exactly the two recommendations of Security (written \<open>pillar: rec\<close>, as the
  source formats each pair). The same holds when the header row and the
  separator row precede it.
\<close>

theorem security_row_example:
  "parse_analysis_results
     ''| Security | Uses IAM roles<br>- Encrypted at rest | No MFA enforced | High | Enable MFA<br>- Rotate keys |''
   = Inr (Some
      [(''Operational Excellence'', \<lparr>strengths = [], risks = [], risk_level = [], recommendations = []\<rparr>),
       (''Security'',
          \<lparr>strengths = [''Uses IAM roles'', ''Encrypted at rest''],
           risks = [''No MFA enforced''],
           risk_level = ''High'',
           recommendations = [''Enable MFA'', ''Rotate keys'']\<rparr>),
       (''Reliability'', \<lparr>strengths = [], risks = [], risk_level = [], recommendations = []\<rparr>),
       (''Performance Efficiency'', \<lparr>strengths = [], risks = [], risk_level = [], recommendations = []\<rparr>),
       (''Cost Optimization'', \<lparr>strengths = [], risks = [], risk_level = [], recommendations = []\<rparr>),
       (''Sustainability'', \<lparr>strengths = [], risks = [], risk_level = [], recommendations = []\<rparr>)])
   \<and> parse_analysis_results
       (''| Pillar | Strengths | Risks | Risk Level | Recommendations |'' @ [CHR 0x0A] @
        ''| --- | --- | --- | --- | --- |'' @ [CHR 0x0A] @
        ''| Security | Uses IAM roles<br>- Encrypted at rest | No MFA enforced | High | Enable MFA<br>- Rotate keys |'')
     = parse_analysis_results
        ''| Security | Uses IAM roles<br>- Encrypted at rest | No MFA enforced | High | Enable MFA<br>- Rotate keys |''
   \<and> high_priority_items
      [(''Operational Excellence'', \<lparr>strengths = [], risks = [], risk_level = [], recommendations = []\<rparr>),
       (''Security'',
          \<lparr>strengths = [''Uses IAM roles'', ''Encrypted at rest''],
           risks = [''No MFA enforced''],
           risk_level = ''High'',
           recommendations = [''Enable MFA'', ''Rotate keys'']\<rparr>),
       (''Reliability'', \<lparr>strengths = [], risks = [], risk_level = [], recommendations = []\<rparr>),
       (''Performance Efficiency'', \<lparr>strengths = [], risks = [], risk_level = [], recommendations = []\<rparr>),
       (''Cost Optimization'', \<lparr>strengths = [], risks = [], risk_level = [], recommendations = []\<rparr>),
       (''Sustainability'', \<lparr>strengths = [], risks = [], risk_level = [], recommendations = []\<rparr>)]
     = [''Security: Enable MFA'', ''Security: Rotate keys'']"
  by code_simp

section \<open>Cells of a row\<close>

text \<open>
  C2, as the specification states it, fails: the parser drops every empty cell,
  not only those at the two ends. In a row of six columns whose second cell is
  empty the specification's cells keep the empty cell at position 1, while the
  parser's cells close up, so that the risks column is read as the strengths.
\<close>

theorem interior_empty_cell_is_dropped:
  "row_parts ''| Security |  | No MFA enforced | High | Enable MFA | Rotate keys |''
     = [''Security'', ''No MFA enforced'', ''High'', ''Enable MFA'', ''Rotate keys'']
   \<and> spec_row_cells ''| Security |  | No MFA enforced | High | Enable MFA | Rotate keys |''
     = [''Security'', '''', ''No MFA enforced'', ''High'', ''Enable MFA'', ''Rotate keys'']
   \<and> parse_analysis_results ''| Security |  | No MFA enforced | High | Enable MFA | Rotate keys |''
     = Inr (Some
      [(''Operational Excellence'', \<lparr>strengths = [], risks = [], risk_level = [], recommendations = []\<rparr>),
       (''Security'',
          \<lparr>strengths = [''No MFA enforced''], risks = [''High''], risk_level = ''Enable MFA'',
           recommendations = [''Rotate keys'']\<rparr>),
       (''Reliability'', \<lparr>strengths = [], risks = [], risk_level = [], recommendations = []\<rparr>),
       (''Performance Efficiency'', \<lparr>strengths = [], risks = [], risk_level = [], recommendations = []\<rparr>),
       (''Cost Optimization'', \<lparr>strengths = [], risks = [], risk_level = [], recommendations = []\<rparr>),
       (''Sustainability'', \<lparr>strengths = [], risks = [], risk_level = [], recommendations = []\<rparr>)])"
  by code_simp

text \<open>
  C2, amended. The cells of a line are its \<open>|\<close>-separated pieces, each
  stripped, with every empty one removed (at the ends and in the interior alike)
  and the others in their order; there are as many as pieces that are not blank,
  none is empty and each is stripped. A line that, stripped, starts with \<open>|\<close>
  and is not a separator row (does not start with \<open>| ---\<close>) goes on to the
  pillar match exactly when it has at least five cells; with fewer it leaves
  the results as they are.
\<close>

theorem row_cells_drop_every_empty_cell:
  "row_parts line = filter (\<lambda>p. p \<noteq> []) (map py_strip (py_split ''|'' line))
   \<and> length (row_parts line) = length (filter (\<lambda>c. py_strip c \<noteq> []) (py_split ''|'' line))
   \<and> (\<forall>p \<in> set (row_parts line). p \<noteq> [] \<and> py_strip p = p)
   \<and> (startswith (py_strip line0) ''|'' \<and> \<not> startswith (py_strip line0) ''| ---'' \<longrightarrow>
        process_line rs line0 =
          (if 5 \<le> length (row_parts (py_strip line0))
           then Inr (case find (\<lambda>k. py_in k (row_parts (py_strip line0) ! 0)) (keys rs) of
                       None \<Rightarrow> rs
                     | Some k \<Rightarrow> assign rs k (row_fields (row_parts (py_strip line0))))
           else Inr rs))"
proof (intro conjI ballI impI)
  show "row_parts line = filter (\<lambda>p. p \<noteq> []) (map py_strip (py_split ''|'' line))"
    by (simp add: row_parts_def)
  show "length (row_parts line) = length (filter (\<lambda>c. py_strip c \<noteq> []) (py_split ''|'' line))"
    by (simp only: row_parts_def length_filter_map)
next
  fix p assume "p \<in> set (row_parts line)"
  then show "p \<noteq> []" and "py_strip p = p"
    by (simp_all add: row_parts_nonempty row_parts_stripped)
next
  assume a: "startswith (py_strip line0) ''|'' \<and> \<not> startswith (py_strip line0) ''| ---''"
  then have "py_strip line0 \<noteq> []" by (auto simp add: startswith_def)
  with a have "is_data_row line0 \<longleftrightarrow> 5 \<le> length (row_parts (py_strip line0))"
    by (simp add: is_data_row_def Let_def)
  then show "process_line rs line0 =
          (if 5 \<le> length (row_parts (py_strip line0))
           then Inr (case find (\<lambda>k. py_in k (row_parts (py_strip line0) ! 0)) (keys rs) of
                       None \<Rightarrow> rs
                     | Some k \<Rightarrow> assign rs k (row_fields (row_parts (py_strip line0))))
           else Inr rs)"
    by (simp add: process_line_eq step_def row_pillar_def)
qed

theorem row_cells_drop_every_empty_cell_witness:
  "process_line initial_results ''| Pillar | Strengths | Risks |'' = Inr initial_results
   \<and> process_line initial_results ''| Security | a | b | Low | c |''
      = Inr (assign initial_results ''Security''
               \<lparr>strengths = [''a''], risks = [''b''], risk_level = ''Low'', recommendations = [''c'']\<rparr>)"
proof -
  have h1: "startswith (py_strip ''| Pillar | Strengths | Risks |'') ''|''
            \<and> \<not> startswith (py_strip ''| Pillar | Strengths | Risks |'') ''| ---''"
    by code_simp
  have n1: "\<not> 5 \<le> length (row_parts (py_strip ''| Pillar | Strengths | Risks |''))"
    by code_simp
  have h2: "startswith (py_strip ''| Security | a | b | Low | c |'') ''|''
            \<and> \<not> startswith (py_strip ''| Security | a | b | Low | c |'') ''| ---''"
    by code_simp
  have n2: "5 \<le> length (row_parts (py_strip ''| Security | a | b | Low | c |''))"
    by code_simp
  have e2: "(case find (\<lambda>k. py_in k (row_parts (py_strip ''| Security | a | b | Low | c |'') ! 0))
                   (keys initial_results) of
               None \<Rightarrow> initial_results
             | Some k \<Rightarrow> assign initial_results k
                 (row_fields (row_parts (py_strip ''| Security | a | b | Low | c |''))))
            = assign initial_results ''Security''
               \<lparr>strengths = [''a''], risks = [''b''], risk_level = ''Low'', recommendations = [''c'']\<rparr>"
    by code_simp
  note t1 = row_cells_drop_every_empty_cell
      [of "[]" "''| Pillar | Strengths | Risks |''" initial_results,
       THEN conjunct2, THEN conjunct2, THEN conjunct2, THEN mp, OF h1]
  note t2 = row_cells_drop_every_empty_cell
      [of "[]" "''| Security | a | b | Low | c |''" initial_results,
       THEN conjunct2, THEN conjunct2, THEN conjunct2, THEN mp, OF h2]
  from t1 n1 have 1: "process_line initial_results ''| Pillar | Strengths | Risks |'' = Inr initial_results"
    by (simp only: if_False)
  from t2 n2 e2 have 2: "process_line initial_results ''| Security | a | b | Low | c |''
      = Inr (assign initial_results ''Security''
               \<lparr>strengths = [''a''], risks = [''b''], risk_level = ''Low'', recommendations = [''c'']\<rparr>)"
    by (simp only: if_True)
  from 1 2 show ?thesis by (rule conjI)
qed

section \<open>Items of a cell\<close>

text \<open>
  C3, as the specification states it, fails: the parser applies
  \<open>strip('- ')\<close> to each fragment, which removes every dash and space at both
  ends, not one leading bullet marker. A fragment with two bullet markers loses
  both, and a fragment that ends in a dash loses the dash.
\<close>

theorem fragment_loses_more_than_one_bullet:
  "cell_items ''- - Rotate keys<br>Enable MFA -'' = [''Rotate keys'', ''Enable MFA'']
   \<and> spec_cell_items ''- - Rotate keys<br>Enable MFA -'' = [''- Rotate keys'', ''Enable MFA -'']
   \<and> parse_analysis_results
        ''| Security | Uses IAM roles | No MFA enforced | High | - - Rotate keys<br>Enable MFA - |''
     = Inr (Some
      [(''Operational Excellence'', \<lparr>strengths = [], risks = [], risk_level = [], recommendations = []\<rparr>),
       (''Security'',
          \<lparr>strengths = [''Uses IAM roles''], risks = [''No MFA enforced''], risk_level = ''High'',
           recommendations = [''Rotate keys'', ''Enable MFA'']\<rparr>),
       (''Reliability'', \<lparr>strengths = [], risks = [], risk_level = [], recommendations = []\<rparr>),
       (''Performance Efficiency'', \<lparr>strengths = [], risks = [], risk_level = [], recommendations = []\<rparr>),
       (''Cost Optimization'', \<lparr>strengths = [], risks = [], risk_level = [], recommendations = []\<rparr>),
       (''Sustainability'', \<lparr>strengths = [], risks = [], risk_level = [], recommendations = []\<rparr>)])"
  by code_simp

text \<open>
  C3, amended. A row assigned to pillar \<open>k\<close> gives \<open>k\<close> the items of its
  cells 1, 2 and 4 (and its cell 3 as the risk level). The items of a cell are
  its fragments between the markers \<open><br>\<close>, in their order, each with all
  dashes and spaces removed from both ends (nothing else, and nothing from the
  interior), the empty results dropped: a fragment is its item between a run of
  dashes and spaces on each side, and an item neither starts nor ends with a
  dash or a space.
\<close>

theorem cell_items_strip_dashes_and_spaces:
  "(row_pillar (keys rs) line = Some k \<longrightarrow>
      (\<exists>rs'. process_line rs line = Inr rs' \<and>
         map_of rs' k =
           Some \<lparr>strengths = cell_items (row_parts (py_strip line) ! 1),
                 risks = cell_items (row_parts (py_strip line) ! 2),
                 risk_level = row_parts (py_strip line) ! 3,
                 recommendations = cell_items (row_parts (py_strip line) ! 4)\<rparr>))
   \<and> cell_items cell = filter (\<lambda>s. s \<noteq> []) (map (strip_chars ''- '') (py_split ''<br>'' cell))
   \<and> (\<exists>a b. f = a @ strip_chars ''- '' f @ b
          \<and> set a \<subseteq> {CHR ''-'', CHR '' ''} \<and> set b \<subseteq> {CHR ''-'', CHR '' ''})
   \<and> (strip_chars ''- '' f \<noteq> [] \<longrightarrow>
        hd (strip_chars ''- '' f) \<notin> {CHR ''-'', CHR '' ''}
        \<and> last (strip_chars ''- '' f) \<notin> {CHR ''-'', CHR '' ''})"
proof (intro conjI impI)
  assume "row_pillar (keys rs) line = Some k"
  then have "map_of (step rs line) k = Some (row_fields (row_parts (py_strip line)))"
    by (simp add: map_of_step)
  then show "\<exists>rs'. process_line rs line = Inr rs' \<and>
         map_of rs' k =
           Some \<lparr>strengths = cell_items (row_parts (py_strip line) ! 1),
                 risks = cell_items (row_parts (py_strip line) ! 2),
                 risk_level = row_parts (py_strip line) ! 3,
                 recommendations = cell_items (row_parts (py_strip line) ! 4)\<rparr>"
    by (simp add: process_line_eq row_fields_def)
next
  show "cell_items cell = filter (\<lambda>s. s \<noteq> []) (map (strip_chars ''- '') (py_split ''<br>'' cell))"
    by (simp add: cell_items_def)
next
  from strip_where_decomp[of f "\<lambda>c. c \<in> set ''- ''"]
  show "\<exists>a b. f = a @ strip_chars ''- '' f @ b
          \<and> set a \<subseteq> {CHR ''-'', CHR '' ''} \<and> set b \<subseteq> {CHR ''-'', CHR '' ''}"
    unfolding strip_chars_def by (simp add: subset_iff Ball_def)
next
  assume "strip_chars ''- '' f \<noteq> []"
  then have "strip_where (\<lambda>c. c \<in> set ''- '') f \<noteq> []" by (simp add: strip_chars_def)
  from strip_where_ends[OF this]
  show "hd (strip_chars ''- '' f) \<notin> {CHR ''-'', CHR '' ''}"
    and "last (strip_chars ''- '' f) \<notin> {CHR ''-'', CHR '' ''}"
    by (simp_all add: strip_chars_def)
qed

theorem cell_items_strip_dashes_and_spaces_witness:
  "(\<exists>rs'. process_line initial_results ''| Security | a<br>- b | -- c - | Low | d |'' = Inr rs' \<and>
         map_of rs' ''Security'' =
           Some \<lparr>strengths = [''a'', ''b''], risks = [''c''], risk_level = ''Low'',
                 recommendations = [''d'']\<rparr>)
   \<and> hd (strip_chars ''- '' ''-- c -'') \<notin> {CHR ''-'', CHR '' ''}"
proof -
  have h: "row_pillar (keys initial_results) ''| Security | a<br>- b | -- c - | Low | d |'' = Some ''Security''"
    by code_simp
  have e: "\<lparr>strengths = cell_items (row_parts (py_strip ''| Security | a<br>- b | -- c - | Low | d |'') ! 1),
            risks = cell_items (row_parts (py_strip ''| Security | a<br>- b | -- c - | Low | d |'') ! 2),
            risk_level = row_parts (py_strip ''| Security | a<br>- b | -- c - | Low | d |'') ! 3,
            recommendations = cell_items (row_parts (py_strip ''| Security | a<br>- b | -- c - | Low | d |'') ! 4)\<rparr>
        = \<lparr>strengths = [''a'', ''b''], risks = [''c''], risk_level = ''Low'', recommendations = [''d'']\<rparr>"
    by code_simp
  have n: "strip_chars ''- '' ''-- c -'' \<noteq> []" by code_simp
  note t = cell_items_strip_dashes_and_spaces
      [of initial_results "''| Security | a<br>- b | -- c - | Low | d |''" "''Security''" "[]" "''-- c -''"]
  from t[THEN conjunct1, THEN mp, OF h] e
  have 1: "\<exists>rs'. process_line initial_results ''| Security | a<br>- b | -- c - | Low | d |'' = Inr rs' \<and>
         map_of rs' ''Security'' =
           Some \<lparr>strengths = [''a'', ''b''], risks = [''c''], risk_level = ''Low'',
                 recommendations = [''d'']\<rparr>"
    by (simp only:)
  from t[THEN conjunct2, THEN conjunct2, THEN conjunct2, THEN mp, OF n]
  have 2: "hd (strip_chars ''- '' ''-- c -'') \<notin> {CHR ''-'', CHR '' ''}"
    by (rule conjunct1)
  from 1 2 show ?thesis by (rule conjI)
qed

section \<open>Input without a recognised pillar\<close>

text \<open>
  C4. If no row of the text (no line that, stripped, starts with \<open>|\<close>) has a
  first cell containing one of the six pillar names, \<open>parse_analysis_results\<close>
  returns \<open>None\<close>. And whenever it returns results, some pillar of them has a
  non-empty field.
\<close>

theorem no_pillar_row_gives_None:
  "((\<forall>line \<in> set (py_split [CHR 0x0A] text).
       startswith (py_strip line) ''|'' \<longrightarrow>
       (\<forall>k \<in> set (keys initial_results). \<not> py_in k (first_cell line)))
     \<longrightarrow> parse_analysis_results text = Inr None)
   \<and> (\<forall>r. parse_analysis_results text = Inr (Some r) \<longrightarrow> nonempty_field r)"
proof (intro conjI impI allI)
  assume h: "\<forall>line \<in> set (py_split [CHR 0x0A] text).
       startswith (py_strip line) ''|'' \<longrightarrow>
       (\<forall>k \<in> set (keys initial_results). \<not> py_in k (first_cell line))"
  have "\<forall>z\<in>set (py_split [CHR 0x0A] text). row_pillar (keys initial_results) z = None"
    using h by (auto intro: row_pillar_None_first_cell)
  then have "foldl step initial_results (py_split [CHR 0x0A] text) = initial_results"
    by (rule foldl_step_none)
  then show "parse_analysis_results text = Inr None"
    by (simp add: parse_eq not_has_content_initial)
next
  fix r assume "parse_analysis_results text = Inr (Some r)"
  then have "has_content r" by (simp add: parse_eq split: if_splits)
  then show "nonempty_field r"
    by (simp add: has_content_iff nonempty_field_def any_values_def)
qed

theorem no_pillar_row_gives_None_witness:
  "parse_analysis_results
     (''Here is the table:'' @ [CHR 0x0A] @
      ''| Pillar | Strengths | Risks | Risk Level | Recommendations |'') = Inr None
   \<and> nonempty_field
       (assign initial_results ''Reliability''
          \<lparr>strengths = [''a''], risks = [''b''], risk_level = ''Low'', recommendations = [''c'']\<rparr>)"
proof -
  have h1: "\<forall>line \<in> set (py_split [CHR 0x0A]
               (''Here is the table:'' @ [CHR 0x0A] @
                ''| Pillar | Strengths | Risks | Risk Level | Recommendations |'')).
       startswith (py_strip line) ''|'' \<longrightarrow>
       (\<forall>k \<in> set (keys initial_results). \<not> py_in k (first_cell line))"
    by code_simp
  have h2: "parse_analysis_results ''| Reliability | a | b | Low | c |''
      = Inr (Some (assign initial_results ''Reliability''
          \<lparr>strengths = [''a''], risks = [''b''], risk_level = ''Low'', recommendations = [''c'']\<rparr>))"
    by code_simp
  have 1: "parse_analysis_results
     (''Here is the table:'' @ [CHR 0x0A] @
      ''| Pillar | Strengths | Risks | Risk Level | Recommendations |'') = Inr None"
    by (rule no_pillar_row_gives_None[THEN conjunct1, THEN mp, OF h1])
  have 2: "nonempty_field
       (assign initial_results ''Reliability''
          \<lparr>strengths = [''a''], risks = [''b''], risk_level = ''Low'', recommendations = [''c'']\<rparr>)"
    by (rule no_pillar_row_gives_None[THEN conjunct2, THEN spec, THEN mp, OF h2])
  from 1 2 show ?thesis by (rule conjI)
qed

section \<open>Two rows for one pillar\<close>

text \<open>
  C5. When the lines of the text contain two data rows assigned to the same
  pillar \<open>k\<close> (the first known pillar contained in cell 0 of each), and no
  line after the later row is assigned to \<open>k\<close>, parsing returns results in
  which \<open>k\<close> holds exactly the four fields of the later row: nothing of the
  earlier row remains.
\<close>

theorem last_row_wins:
  assumes "py_split [CHR 0x0A] text = xs @ l1 # ys @ l2 # zs"
    and "row_pillar (keys initial_results) l1 = Some k"
    and "row_pillar (keys initial_results) l2 = Some k"
    and "\<forall>z \<in> set zs. row_pillar (keys initial_results) z \<noteq> Some k"
  shows "\<exists>r. parse_analysis_results text = Inr (Some r)
             \<and> map_of r k = Some (row_fields (row_parts (py_strip l2)))"
proof -
  define r where "r = foldl step initial_results (py_split [CHR 0x0A] text)"
  have "r = foldl step initial_results ((xs @ l1 # ys) @ l2 # zs)"
    by (simp add: r_def assms(1))
  then have m: "map_of r k = Some (row_fields (row_parts (py_strip l2)))"
    by (simp only: map_of_foldl_step_last[OF assms(3,4), of "xs @ l1 # ys"])
  have "is_data_row l2" using assms(3) by (simp add: row_pillar_def split: if_splits)
  then have "any_values (row_fields (row_parts (py_strip l2)))" by (rule row_fields_any_values)
  with m have "has_content r" by (rule has_content_map_of)
  moreover have "text \<noteq> []"
  proof
    assume "text = []"
    then have "py_split [CHR 0x0A] text = [[]]" by (simp add: py_split_def)
    with assms(1) show False by (cases xs) simp_all
  qed
  ultimately have "parse_analysis_results text = Inr (Some r)"
    by (simp add: parse_eq r_def)
  with m show ?thesis by blast
qed

theorem last_row_wins_witness:
  "\<exists>r. parse_analysis_results
          (''| Security | a<br>b | c | Low | d |'' @ [CHR 0x0A] @
           ''| **Security** | e | f | High | g |'') = Inr (Some r)
       \<and> map_of r ''Security'' =
           Some \<lparr>strengths = [''e''], risks = [''f''], risk_level = ''High'',
                 recommendations = [''g'']\<rparr>"
proof -
  have h1: "py_split [CHR 0x0A]
          (''| Security | a<br>b | c | Low | d |'' @ [CHR 0x0A] @
           ''| **Security** | e | f | High | g |'')
       = [] @ ''| Security | a<br>b | c | Low | d |'' # [] @ ''| **Security** | e | f | High | g |'' # []"
    by code_simp
  have h2: "row_pillar (keys initial_results) ''| Security | a<br>b | c | Low | d |'' = Some ''Security''"
    by code_simp
  have h3: "row_pillar (keys initial_results) ''| **Security** | e | f | High | g |'' = Some ''Security''"
    by code_simp
  have h4: "\<forall>z \<in> set []. row_pillar (keys initial_results) z \<noteq> Some ''Security''"
    by simp
  have e: "row_fields (row_parts (py_strip ''| **Security** | e | f | High | g |''))
       = \<lparr>strengths = [''e''], risks = [''f''], risk_level = ''High'', recommendations = [''g'']\<rparr>"
    by code_simp
  from last_row_wins[OF h1 h2 h3 h4] show ?thesis by (simp only: e)
qed

section \<open>High-priority items\<close>

text \<open>
  C6. The high-priority items of any results are, in order, the pairs
  (pillar, recommendation) for every recommendation of every pillar whose risk
  level equals \<open>HIGH\<close> up to the case of its letters, each pair written
  \<open>pillar: recommendation\<close>; the list is empty when no pillar's risk level
  upper-cases to \<open>HIGH\<close>; and \<open>high\<close>, \<open>High\<close> and \<open>HIGH\<close> all
  upper-case to \<open>HIGH\<close>.
\<close>

theorem high_priority_items_are_the_high_pairs:
  "high_priority_items rs = map (\<lambda>(pillar, rec). pillar @ '': '' @ rec) (spec_high_priority_pairs rs)
   \<and> ((\<forall>(pillar, details) \<in> set rs. upper (risk_level details) \<noteq> code_points ''HIGH'')
        \<longrightarrow> high_priority_items rs = [])
   \<and> upper ''high'' = code_points ''HIGH''
   \<and> upper ''High'' = code_points ''HIGH''
   \<and> upper ''HIGH'' = code_points ''HIGH''"
proof (intro conjI impI)
  show "high_priority_items rs = map (\<lambda>(pillar, rec). pillar @ '': '' @ rec) (spec_high_priority_pairs rs)"
  proof (induction rs)
    case Nil
    show ?case by (simp add: high_priority_items_def spec_high_priority_pairs_def)
  next
    case (Cons a rs)
    obtain p d where a: "a = (p, d)" by (cases a)
    have "spec_high_priority_pairs ((p, d) # rs)
          = (if spec_is_high (risk_level d) then map (\<lambda>rec. (p, rec)) (recommendations d) else [])
            @ spec_high_priority_pairs rs"
      by (simp add: spec_high_priority_pairs_def)
    then show ?case
      using Cons by (simp add: a high_priority_items_Cons upper_HIGH_iff o_def)
  qed
next
  assume "\<forall>(pillar, details) \<in> set rs. upper (risk_level details) \<noteq> code_points ''HIGH''"
  then show "high_priority_items rs = []"
  proof (induction rs)
    case Nil
    show ?case by (simp add: high_priority_items_def)
  next
    case (Cons a rs)
    obtain p d where a: "a = (p, d)" by (cases a)
    from Cons show ?case by (simp add: a high_priority_items_Cons)
  qed
qed (simp_all add: upper_HIGH_iff spec_is_high_def same_letter_def)

theorem high_priority_items_are_the_high_pairs_witness:
  "high_priority_items
     [(''Security'', \<lparr>strengths = [], risks = [], risk_level = ''high'',
                      recommendations = [''Enable MFA'', ''Rotate keys'']\<rparr>),
      (''Reliability'', \<lparr>strengths = [], risks = [], risk_level = ''Medium'',
                      recommendations = [''Add a second AZ'']\<rparr>),
      (''Sustainability'', \<lparr>strengths = [], risks = [], risk_level = ''HIGH'',
                      recommendations = [''Use Graviton'']\<rparr>)]
     = [''Security: Enable MFA'', ''Security: Rotate keys'', ''Sustainability: Use Graviton'']
   \<and> high_priority_items
     [(''Reliability'', \<lparr>strengths = [], risks = [], risk_level = ''Medium'',
                      recommendations = [''Add a second AZ'']\<rparr>)] = []"
proof -
  have e: "map (\<lambda>(pillar, rec). pillar @ '': '' @ rec) (spec_high_priority_pairs
     [(''Security'', \<lparr>strengths = [], risks = [], risk_level = ''high'',
                      recommendations = [''Enable MFA'', ''Rotate keys'']\<rparr>),
      (''Reliability'', \<lparr>strengths = [], risks = [], risk_level = ''Medium'',
                      recommendations = [''Add a second AZ'']\<rparr>),
      (''Sustainability'', \<lparr>strengths = [], risks = [], risk_level = ''HIGH'',
                      recommendations = [''Use Graviton'']\<rparr>)])
     = [''Security: Enable MFA'', ''Security: Rotate keys'', ''Sustainability: Use Graviton'']"
    by code_simp
  have h: "\<forall>(pillar, details) \<in> set
     [(''Reliability'', \<lparr>strengths = [], risks = [], risk_level = ''Medium'',
                      recommendations = [''Add a second AZ'']\<rparr>)].
       upper (risk_level details) \<noteq> code_points ''HIGH''"
    by code_simp
  note 1 = high_priority_items_are_the_high_pairs[THEN conjunct1,
      of "[(''Security'', \<lparr>strengths = [], risks = [], risk_level = ''high'',
                      recommendations = [''Enable MFA'', ''Rotate keys'']\<rparr>),
      (''Reliability'', \<lparr>strengths = [], risks = [], risk_level = ''Medium'',
                      recommendations = [''Add a second AZ'']\<rparr>),
      (''Sustainability'', \<lparr>strengths = [], risks = [], risk_level = ''HIGH'',
                      recommendations = [''Use Graviton'']\<rparr>)]", unfolded e]
  note 2 = high_priority_items_are_the_high_pairs[THEN conjunct2, THEN conjunct1, THEN mp, OF h]
  from 1 2 show ?thesis by (rule conjI)
qed

section \<open>The keys of the results\<close>

text \<open>
  C7. Whatever the text, results that \<open>parse_analysis_results\<close> returns have
  exactly the six pillars as keys, each once, in the order of the source.
\<close>

theorem parsed_keys_are_the_six_pillars:
  assumes "parse_analysis_results text = Inr (Some r)"
  shows "keys r = [''Operational Excellence'', ''Security'', ''Reliability'',
                   ''Performance Efficiency'', ''Cost Optimization'', ''Sustainability'']
         \<and> distinct (keys r)"
proof -
  from assms have "r = foldl step initial_results (py_split [CHR 0x0A] text)"
    by (simp add: parse_eq split: if_splits)
  then have "keys r = keys initial_results" by (simp add: keys_foldl_step)
  then show ?thesis by (simp add: keys_def initial_results_def)
qed

theorem parsed_keys_are_the_six_pillars_witness:
  "keys (assign initial_results ''Cost Optimization''
          \<lparr>strengths = [''a''], risks = [''b''], risk_level = ''Low'', recommendations = [''c'']\<rparr>)
     = [''Operational Excellence'', ''Security'', ''Reliability'',
        ''Performance Efficiency'', ''Cost Optimization'', ''Sustainability'']
   \<and> distinct (keys (assign initial_results ''Cost Optimization''
          \<lparr>strengths = [''a''], risks = [''b''], risk_level = ''Low'', recommendations = [''c'']\<rparr>))"
proof -
  have h: "parse_analysis_results ''| Cost Optimization and Budget | a | b | Low | c |''
      = Inr (Some (assign initial_results ''Cost Optimization''
          \<lparr>strengths = [''a''], risks = [''b''], risk_level = ''Low'', recommendations = [''c'']\<rparr>))"
    by code_simp
  show ?thesis by (rule parsed_keys_are_the_six_pillars[OF h])
qed

section \<open>The size limit\<close>

text \<open>
  C8. \<open>validate_image_size\<close> accepts exactly the inputs of at most
  \<open>5 * 1024 * 1024 = 5242880\<close> bytes. \<open>main\<close> applies it to the uploaded
  bytes as read, before anything else is done with them: longer input is
  rejected with the size error, and input of at most that length, the boundary
  included, goes on unchanged.
\<close>

theorem image_size_limit:
  "(validate_image_size image_bytes \<longleftrightarrow> length image_bytes \<le> 5 * 1024 * 1024)
   \<and> (5 * 1024 * 1024 < length image_bytes \<longrightarrow>
        main_size_check image_bytes = Rejected ''Image size must be less than 5MB'')
   \<and> (length image_bytes \<le> 5 * 1024 * 1024 \<longrightarrow>
        main_size_check image_bytes = Accepted image_bytes)"
  by (simp add: validate_image_size_def MAX_SIZE_def main_size_check_def)

theorem image_size_limit_witness:
  "validate_image_size (replicate 5242880 0)
   \<and> main_size_check (replicate 5242880 0) = Accepted (replicate 5242880 0)
   \<and> main_size_check (replicate 5242881 0) = Rejected ''Image size must be less than 5MB''"
  using image_size_limit[of "replicate 5242880 0"] image_size_limit[of "replicate 5242881 0"]
  by simp

section \<open>Colour mode\<close>


section \<open>Exceptions that escape the parser\<close>

text \<open>
  C10, as stated, fails: before it parses anything the function shows the raw
  text with \<open>st.code\<close>, and a text that cannot be sent to the page makes that
  call raise. For the one-character string with the lone surrogate \<open>U+D800\<close>
  the error escapes the function.
\<close>

theorem lone_surrogate_escapes:
  "parse_analysis_results_st utf8_page [55296] = Inl (Foreign UnicodeEncodeError)"
  by (simp add: parse_analysis_results_st_def utf8_page_def send_utf8_literals foreign_Inr
      bind_err_Inr send_utf8_def is_surrogate_def foreign_def bind_err_def)

text \<open>
  C10, amended. For every string, the empty one included, and whatever
  Streamlit's calls do: if the calls the function makes return normally, the
  function returns (\<open>None\<close> or results); no exception of the function's own
  code ever escapes, neither an index error (cells 0 to 4 are read only when
  there are at least five cells) nor a key error, and one iteration of the loop
  over the lines always returns; on the empty string the function returns
  \<open>None\<close>; and with a page that fails only on text it cannot encode, every
  string without a surrogate code point is parsed to a value.
\<close>

theorem only_page_output_can_raise:
  "(st_error st (code_points ''No analysis text received from the API'') = Inr ()
      \<and> st_error st (code_points ''Failed to parse the analysis results properly'') = Inr ()
      \<and> st_write st (code_points ''Raw Response:'') = Inr ()
      \<and> st_code st text = Inr ()
      \<longrightarrow> (\<exists>r. parse_analysis_results_st st text = Inr r))
   \<and> (\<forall>e. parse_analysis_results_st st text \<noteq> Inl (Own e))
   \<and> (\<exists>rs'. process_line_u rs line = Inr rs')
   \<and> (st_error st (code_points ''No analysis text received from the API'') = Inr ()
      \<longrightarrow> parse_analysis_results_st st [] = Inr None)
   \<and> (\<not> list_ex is_surrogate text \<longrightarrow> (\<exists>r. parse_analysis_results_st utf8_page text = Inr r))"
proof -
  obtain rs1 where p: "process_lines_u initial_results_u (py_split [10] text) = Inr rs1"
    using process_lines_u_returns by blast
  have returns: "\<exists>r. parse_analysis_results_st st' text = Inr r"
    if "st_error st' (code_points ''No analysis text received from the API'') = Inr ()"
      and "st_error st' (code_points ''Failed to parse the analysis results properly'') = Inr ()"
      and "st_write st' (code_points ''Raw Response:'') = Inr ()"
      and "st_code st' text = Inr ()" for st' :: "'y streamlit"
    using that by (simp add: parse_analysis_results_st_def p foreign_Inr own_Inr bind_err_Inr)
  have 1: "st_error st (code_points ''No analysis text received from the API'') = Inr ()
      \<and> st_error st (code_points ''Failed to parse the analysis results properly'') = Inr ()
      \<and> st_write st (code_points ''Raw Response:'') = Inr ()
      \<and> st_code st text = Inr ()
      \<longrightarrow> (\<exists>r. parse_analysis_results_st st text = Inr r)"
    using returns[of st] by blast
  have 2: "\<forall>e. parse_analysis_results_st st text \<noteq> Inl (Own e)"
    by (auto simp add: parse_analysis_results_st_def p own_Inr bind_err_Inl_iff foreign_not_Own)
  have 3: "\<exists>rs'. process_line_u rs line = Inr rs'"
    by (rule process_line_u_returns)
  have 4: "st_error st (code_points ''No analysis text received from the API'') = Inr ()
      \<longrightarrow> parse_analysis_results_st st [] = Inr None"
    by (simp add: parse_analysis_results_st_def foreign_Inr bind_err_Inr)
  note m = send_utf8_literals
  have 5: "\<not> list_ex is_surrogate text \<longrightarrow> (\<exists>r. parse_analysis_results_st utf8_page text = Inr r)"
  proof
    assume "\<not> list_ex is_surrogate text"
    then have "send_utf8 text = Inr ()" by (simp add: send_utf8_def)
    with m show "\<exists>r. parse_analysis_results_st utf8_page text = Inr r"
      by (intro returns) (simp_all add: utf8_page_def)
  qed
  from 1 2 3 4 5 show ?thesis by blast
qed

theorem only_page_output_can_raise_witness:
  "(\<exists>r. parse_analysis_results_st utf8_page
           (code_points ''| Security | a | b | High | c |'' @ [8364]) = Inr r)
   \<and> parse_analysis_results_st utf8_page [] = Inr None"
proof -
  have h1: "st_error utf8_page (code_points ''No analysis text received from the API'') = Inr ()"
    by (simp add: utf8_page_def send_utf8_literals)
  have h: "st_error utf8_page (code_points ''No analysis text received from the API'') = Inr ()
      \<and> st_error utf8_page (code_points ''Failed to parse the analysis results properly'') = Inr ()
      \<and> st_write utf8_page (code_points ''Raw Response:'') = Inr ()
      \<and> st_code utf8_page (code_points ''| Security | a | b | High | c |'' @ [8364]) = Inr ()"
    by (simp add: utf8_page_def send_utf8_literals)
      (simp add: send_utf8_def code_points_def is_surrogate_def)
  note t = only_page_output_can_raise[of utf8_page
      "code_points ''| Security | a | b | High | c |'' @ [8364]" "[]" "[]"]
  from t[THEN conjunct1, THEN mp, OF h]
  have 1: "\<exists>r. parse_analysis_results_st utf8_page
           (code_points ''| Security | a | b | High | c |'' @ [8364]) = Inr r" .
  from t[THEN conjunct2, THEN conjunct2, THEN conjunct2, THEN conjunct1, THEN mp, OF h1]
  have 2: "parse_analysis_results_st utf8_page [] = Inr None" .
  from 1 2 show ?thesis by (rule conjI)
qed

end
